theory Spec2Isabelle
  imports Main "HOL-Library.Monad_Syntax" "HOL-Library.Word" "HOL-Library.Tree"
begin

section \<open>Intrusive nodes and the store\<close>

text \<open>
  The trees of the repository are intrusive: a node is a caller-owned object that embeds
  the links, and the tree only rewires links. A node pointer is an address; \<open>nullptr\<close>
  is \<open>None\<close>. The store maps every address to the node object living there, so a
  non-null pointer can always be dereferenced, and dereferencing \<open>nullptr\<close> (undefined
  behaviour in the source) makes the operation fail with \<open>None\<close>. A loop that never
  leaves (possible on a cyclic store) is \<open>None\<close> as well.

  \<open>Compare()(a, b)\<close>, the user's strict weak ordering on nodes, is \<open>key a < key b\<close>
  for a key of a linearly ordered type carried by each node; two different nodes may
  carry the same key, and then compare equal.
\<close>

type_synonym addr = nat

datatype color = RED | BLACK

record 'k rbnode =
  key :: 'k
  rbt_left :: "addr option"
  rbt_right :: "addr option"
  rbt_parent :: "addr option"
  rbt_color :: color
  rbt_prev :: "addr option"
  rbt_next :: "addr option"

type_synonym 'k rbheap = "addr \<Rightarrow> 'k rbnode"

record 'k rbtree =
  root :: "addr option"
  heap :: "'k rbheap"

definition set_left :: "addr \<Rightarrow> addr option \<Rightarrow> 'k rbtree \<Rightarrow> 'k rbtree" where
  "set_left a v t = t\<lparr>heap := (heap t)(a := (heap t a)\<lparr>rbt_left := v\<rparr>)\<rparr>"

definition set_right :: "addr \<Rightarrow> addr option \<Rightarrow> 'k rbtree \<Rightarrow> 'k rbtree" where
  "set_right a v t = t\<lparr>heap := (heap t)(a := (heap t a)\<lparr>rbt_right := v\<rparr>)\<rparr>"

definition set_parent :: "addr \<Rightarrow> addr option \<Rightarrow> 'k rbtree \<Rightarrow> 'k rbtree" where
  "set_parent a v t = t\<lparr>heap := (heap t)(a := (heap t a)\<lparr>rbt_parent := v\<rparr>)\<rparr>"

definition set_color :: "addr \<Rightarrow> color \<Rightarrow> 'k rbtree \<Rightarrow> 'k rbtree" where
  "set_color a v t = t\<lparr>heap := (heap t)(a := (heap t a)\<lparr>rbt_color := v\<rparr>)\<rparr>"

definition set_prev :: "addr \<Rightarrow> addr option \<Rightarrow> 'k rbtree \<Rightarrow> 'k rbtree" where
  "set_prev a v t = t\<lparr>heap := (heap t)(a := (heap t a)\<lparr>rbt_prev := v\<rparr>)\<rparr>"

definition set_next :: "addr \<Rightarrow> addr option \<Rightarrow> 'k rbtree \<Rightarrow> 'k rbtree" where
  "set_next a v t = t\<lparr>heap := (heap t)(a := (heap t a)\<lparr>rbt_next := v\<rparr>)\<rparr>"

definition set_root :: "addr option \<Rightarrow> 'k rbtree \<Rightarrow> 'k rbtree" where
  "set_root v t = t\<lparr>root := v\<rparr>"

text \<open>\<open>if (p != nullptr) p->_rbt_parent = v\<close>, the guarded back-link of the source.\<close>

definition set_parent_of :: "addr option \<Rightarrow> addr option \<Rightarrow> 'k rbtree \<Rightarrow> 'k rbtree" where
  "set_parent_of p v t = (case p of None \<Rightarrow> t | Some c \<Rightarrow> set_parent c v t)"

section \<open>Red-Black tree (rbtree.cpp)\<close>

subsection \<open>Iterator steps\<close>

partial_function (option) descend_left :: "'k rbheap \<Rightarrow> addr \<Rightarrow> addr option" where
  "descend_left h n =
     (case rbt_left (h n) of None \<Rightarrow> Some n | Some l \<Rightarrow> descend_left h l)"

declare descend_left.simps [code]

partial_function (option) descend_right :: "'k rbheap \<Rightarrow> addr \<Rightarrow> addr option" where
  "descend_right h n =
     (case rbt_right (h n) of None \<Rightarrow> Some n | Some r \<Rightarrow> descend_right h r)"

declare descend_right.simps [code]

text \<open>\<open>while (n->parent != nullptr && n->parent->right == n) n = n->parent\<close>\<close>

partial_function (option) skip_visited_right :: "'k rbheap \<Rightarrow> addr \<Rightarrow> addr option" where
  "skip_visited_right h n =
     (case rbt_parent (h n) of
        None \<Rightarrow> Some n
      | Some p \<Rightarrow> if rbt_right (h p) = Some n then skip_visited_right h p else Some n)"

declare skip_visited_right.simps [code]

partial_function (option) skip_visited_left :: "'k rbheap \<Rightarrow> addr \<Rightarrow> addr option" where
  "skip_visited_left h n =
     (case rbt_parent (h n) of
        None \<Rightarrow> Some n
      | Some p \<Rightarrow> if rbt_left (h p) = Some n then skip_visited_left h p else Some n)"

declare skip_visited_left.simps [code]

text \<open>
  \<open>step_forward\<close> moves an iterator standing on node \<open>n\<close>; the result is the new
  \<open>it.n\<close>, \<open>None\<close> for the end iterator.
\<close>

definition step_forward :: "'k rbheap \<Rightarrow> addr \<Rightarrow> addr option option" where
  "step_forward h n =
     (case rbt_right (h n) of
        Some r \<Rightarrow> map_option Some (descend_left h r)
      | None \<Rightarrow> map_option (\<lambda>m. rbt_parent (h m)) (skip_visited_right h n))"

definition step_back :: "'k rbheap \<Rightarrow> addr \<Rightarrow> addr option option" where
  "step_back h n =
     (case rbt_left (h n) of
        Some l \<Rightarrow> map_option Some (descend_right h l)
      | None \<Rightarrow> map_option (\<lambda>m. rbt_parent (h m)) (skip_visited_left h n))"

definition get_smallest :: "'k rbtree \<Rightarrow> addr option option" where
  "get_smallest t =
     (case root t of None \<Rightarrow> Some None | Some r \<Rightarrow> map_option Some (descend_left (heap t) r))"

definition get_largest :: "'k rbtree \<Rightarrow> addr option option" where
  "get_largest t =
     (case root t of None \<Rightarrow> Some None | Some r \<Rightarrow> map_option Some (descend_right (heap t) r))"

definition rbt_begin :: "'k rbtree \<Rightarrow> addr option option" where
  "rbt_begin t = get_smallest t"

definition rbt_end :: "'k rbtree \<Rightarrow> addr option" where
  "rbt_end t = None"

text \<open>
  \<open>for (auto & n : tree)\<close>: the nodes an iterator visits from \<open>it\<close> until it equals
  \<open>end()\<close>.
\<close>

partial_function (option) iterate_from :: "'k rbheap \<Rightarrow> addr option \<Rightarrow> addr list option" where
  "iterate_from h it =
     (case it of
        None \<Rightarrow> Some []
      | Some n \<Rightarrow>
          (case step_forward h n of
             None \<Rightarrow> None
           | Some nxt \<Rightarrow> Option.bind (iterate_from h nxt) (\<lambda>ns. Some (n # ns))))"

declare iterate_from.simps [code]

definition rbt_iterate :: "'k rbtree \<Rightarrow> addr list option" where
  "rbt_iterate t = (case rbt_begin t of None \<Rightarrow> None | Some it \<Rightarrow> iterate_from (heap t) it)"

definition rbt_empty :: "'k rbtree \<Rightarrow> bool" where
  "rbt_empty t = (root t = None)"

subsection \<open>Equality chain (EqualityListHelper)\<close>

text \<open>
  The first argument is the \<open>MULTIPLE\<close> option (\<open>Node::_rbt_multiple\<close>): without it the
  helper's functions are the empty specialisations.
\<close>

definition equality_list_insert_before :: "bool \<Rightarrow> addr \<Rightarrow> addr option \<Rightarrow> 'k rbtree \<Rightarrow> 'k rbtree" where
  "equality_list_insert_before multiple node predecessor t =
     (if \<not> multiple then t
      else case predecessor of
        None \<Rightarrow> set_prev node None (set_next node None t)
      | Some p \<Rightarrow>
          (let t1 = set_next node (rbt_next (heap t p)) t;
               t2 = set_prev node (Some p) t1;
               t3 = (case rbt_next (heap t2 p) of
                       None \<Rightarrow> t2
                     | Some pn \<Rightarrow> set_prev pn (Some node) t2)
           in set_next p (Some node) t3))"

definition equality_list_insert_after :: "bool \<Rightarrow> addr \<Rightarrow> addr option \<Rightarrow> 'k rbtree \<Rightarrow> 'k rbtree" where
  "equality_list_insert_after multiple node successor t =
     (if \<not> multiple then t
      else case successor of
        None \<Rightarrow> set_prev node None (set_next node None t)
      | Some s \<Rightarrow>
          (let t1 = set_prev node (rbt_prev (heap t s)) t;
               t2 = set_next node (Some s) t1;
               t3 = (case rbt_prev (heap t2 s) of
                       None \<Rightarrow> t2
                     | Some sp \<Rightarrow> set_next sp (Some node) t2)
           in set_prev s (Some node) t3))"

definition equality_list_delete_node :: "bool \<Rightarrow> addr \<Rightarrow> 'k rbtree \<Rightarrow> 'k rbtree" where
  "equality_list_delete_node multiple node t =
     (if \<not> multiple then t
      else
        (let t1 = (case rbt_next (heap t node) of
                     None \<Rightarrow> t
                   | Some nx \<Rightarrow> set_prev nx (rbt_prev (heap t node)) t)
         in case rbt_prev (heap t1 node) of
              None \<Rightarrow> t1
            | Some pv \<Rightarrow> set_next pv (rbt_next (heap t1 node)) t1))"

partial_function (option) find_first_loop :: "'k rbheap \<Rightarrow> addr \<Rightarrow> addr option" where
  "find_first_loop h res =
     (case rbt_prev (h res) of None \<Rightarrow> Some res | Some p \<Rightarrow> find_first_loop h p)"

declare find_first_loop.simps [code]

definition equality_list_find_first :: "bool \<Rightarrow> 'k rbheap \<Rightarrow> addr \<Rightarrow> addr option" where
  "equality_list_find_first multiple h node =
     (if \<not> multiple then Some node else find_first_loop h node)"

definition equality_list_next :: "bool \<Rightarrow> 'k rbheap \<Rightarrow> addr \<Rightarrow> addr option" where
  "equality_list_next multiple h node = (if multiple then rbt_next (h node) else None)"

definition equality_list_prev :: "bool \<Rightarrow> 'k rbheap \<Rightarrow> addr \<Rightarrow> addr option" where
  "equality_list_prev multiple h node = (if multiple then rbt_prev (h node) else None)"

definition equality_list_swap_if_necessary ::
  "bool \<Rightarrow> addr \<Rightarrow> addr \<Rightarrow> ('k::linorder) rbtree \<Rightarrow> 'k rbtree" where
  "equality_list_swap_if_necessary multiple n1 n2 t =
     (if \<not> multiple then t
      else if key (heap t n1) < key (heap t n2) \<or> key (heap t n2) < key (heap t n1) then t
      else if rbt_next (heap t n1) = Some n2 then
        (let t1 = set_next n1 (rbt_next (heap t n2)) t;
             t2 = set_prev n2 (rbt_prev (heap t1 n1)) t1;
             t3 = set_prev n1 (Some n2) t2;
             t4 = set_next n2 (Some n1) t3;
             t5 = (case rbt_next (heap t4 n1) of None \<Rightarrow> t4 | Some x \<Rightarrow> set_prev x (Some n1) t4)
         in (case rbt_prev (heap t5 n2) of None \<Rightarrow> t5 | Some x \<Rightarrow> set_next x (Some n2) t5))
      else if rbt_next (heap t n2) = Some n1 then
        (let t1 = set_next n2 (rbt_next (heap t n1)) t;
             t2 = set_prev n1 (rbt_prev (heap t1 n2)) t1;
             t3 = set_prev n2 (Some n1) t2;
             t4 = set_next n1 (Some n2) t3;
             t5 = (case rbt_next (heap t4 n2) of None \<Rightarrow> t4 | Some x \<Rightarrow> set_prev x (Some n2) t4)
         in (case rbt_prev (heap t5 n1) of None \<Rightarrow> t5 | Some x \<Rightarrow> set_next x (Some n1) t5))
      else
        (let p1 = rbt_prev (heap t n1); p2 = rbt_prev (heap t n2);
             t1 = set_prev n1 p2 (set_prev n2 p1 t);
             x1 = rbt_next (heap t1 n1); x2 = rbt_next (heap t1 n2);
             t2 = set_next n1 x2 (set_next n2 x1 t1);
             t3 = (case rbt_next (heap t2 n1) of None \<Rightarrow> t2 | Some x \<Rightarrow> set_prev x (Some n1) t2);
             t4 = (case rbt_prev (heap t3 n1) of None \<Rightarrow> t3 | Some x \<Rightarrow> set_next x (Some n1) t3);
             t5 = (case rbt_next (heap t4 n2) of None \<Rightarrow> t4 | Some x \<Rightarrow> set_prev x (Some n2) t4)
         in (case rbt_prev (heap t5 n2) of None \<Rightarrow> t5 | Some x \<Rightarrow> set_next x (Some n2) t5)))"

subsection \<open>Insertion\<close>

text \<open>
  The hooks of the default \<open>NodeTraits\<close> (\<open>leaf_inserted\<close>, \<open>rotated_left\<close>,
  \<open>rotated_right\<close>, \<open>deleted_below\<close>, \<open>swapped\<close>) do nothing and are left out.
\<close>

definition rotate_left :: "addr \<Rightarrow> 'k rbtree \<Rightarrow> 'k rbtree option" where
  "rotate_left parent t = do {
     right_child \<leftarrow> rbt_right (heap t parent);
     let t1 = set_right parent (rbt_left (heap t right_child)) t;
     let t2 = set_parent_of (rbt_left (heap t1 right_child)) (Some parent) t1;
     let t3 = set_left right_child (Some parent) t2;
     let t4 = set_parent right_child (rbt_parent (heap t3 parent)) t3;
     let t5 = (case rbt_parent (heap t4 parent) of
                 Some pp \<Rightarrow>
                   if rbt_left (heap t4 pp) = Some parent
                   then set_left pp (Some right_child) t4
                   else set_right pp (Some right_child) t4
               | None \<Rightarrow> set_root (Some right_child) t4);
     Some (set_parent parent (Some right_child) t5)
   }"

definition rotate_right :: "addr \<Rightarrow> 'k rbtree \<Rightarrow> 'k rbtree option" where
  "rotate_right parent t = do {
     left_child \<leftarrow> rbt_left (heap t parent);
     let t1 = set_left parent (rbt_right (heap t left_child)) t;
     let t2 = set_parent_of (rbt_right (heap t1 left_child)) (Some parent) t1;
     let t3 = set_right left_child (Some parent) t2;
     let t4 = set_parent left_child (rbt_parent (heap t3 parent)) t3;
     let t5 = (case rbt_parent (heap t4 parent) of
                 Some pp \<Rightarrow>
                   if rbt_left (heap t4 pp) = Some parent
                   then set_left pp (Some left_child) t4
                   else set_right pp (Some left_child) t4
               | None \<Rightarrow> set_root (Some left_child) t4);
     Some (set_parent parent (Some left_child) t5)
   }"

definition get_uncle :: "'k rbheap \<Rightarrow> addr \<Rightarrow> addr option option" where
  "get_uncle h node = do {
     parent \<leftarrow> rbt_parent (h node);
     grandparent \<leftarrow> rbt_parent (h parent);
     Some (if rbt_left (h grandparent) = Some parent
           then rbt_right (h grandparent) else rbt_left (h grandparent))
   }"

text \<open>
  The recolouring loop of \<open>fixup_after_insert\<close>. It ends either by the \<open>return\<close>
  inside the loop (second component \<open>None\<close>) or by leaving the loop with the current
  node (second component \<open>Some node\<close>).
\<close>

partial_function (option) fixup_insert_loop ::
  "addr \<Rightarrow> 'k rbtree \<Rightarrow> ('k rbtree \<times> addr option) option" where
  "fixup_insert_loop node t = do {
     parent \<leftarrow> rbt_parent (heap t node);
     if rbt_color (heap t parent) \<noteq> RED then Some (t, Some node)
     else do {
       uncle \<leftarrow> get_uncle (heap t) node;
       case uncle of
         None \<Rightarrow> Some (t, Some node)
       | Some u \<Rightarrow>
           if rbt_color (heap t u) \<noteq> RED then Some (t, Some node)
           else do {
             let t1 = set_color parent BLACK t;
             uncle1 \<leftarrow> get_uncle (heap t1) node;
             u1 \<leftarrow> uncle1;
             let t2 = set_color u1 BLACK t1;
             parent2 \<leftarrow> rbt_parent (heap t2 node);
             grandparent \<leftarrow> rbt_parent (heap t2 parent2);
             if rbt_parent (heap t2 grandparent) \<noteq> None
             then fixup_insert_loop grandparent (set_color grandparent RED t2)
             else Some (t2, None)
           }
     }
   }"

declare fixup_insert_loop.simps [code]

definition fixup_after_insert :: "addr \<Rightarrow> 'k rbtree \<Rightarrow> 'k rbtree option" where
  "fixup_after_insert node0 t0 = do {
     (t, r) \<leftarrow> fixup_insert_loop node0 t0;
     case r of
       None \<Rightarrow> Some t
     | Some node \<Rightarrow> do {
         parent \<leftarrow> rbt_parent (heap t node);
         if rbt_color (heap t parent) = BLACK then Some t
         else do {
           grandparent \<leftarrow> rbt_parent (heap t parent);
           t2 \<leftarrow> (if rbt_left (heap t grandparent) = Some parent then do {
                    t1 \<leftarrow> (if rbt_right (heap t parent) = Some node
                           then do { tr \<leftarrow> rotate_left parent t; Some (set_color node BLACK tr) }
                           else Some (set_color parent BLACK t));
                    rotate_right grandparent t1
                  } else do {
                    t1 \<leftarrow> (if rbt_left (heap t parent) = Some node
                           then do { tr \<leftarrow> rotate_right parent t; Some (set_color node BLACK tr) }
                           else Some (set_color parent BLACK t));
                    rotate_left grandparent t1
                  });
           Some (set_color grandparent RED t2)
         }
       }
   }"

text \<open>The descent of \<open>insert_leaf_base\<close>; the result is the last node visited.\<close>

partial_function (option) insert_descend ::
  "('k::linorder) rbheap \<Rightarrow> addr \<Rightarrow> addr option \<Rightarrow> addr option \<Rightarrow> addr option option" where
  "insert_descend h node parent cur =
     (case cur of
        None \<Rightarrow> Some parent
      | Some c \<Rightarrow>
          if key (h c) < key (h node)
          then insert_descend h node (Some c) (rbt_right (h c))
          else insert_descend h node (Some c) (rbt_left (h c)))"

declare insert_descend.simps [code]

definition insert_leaf_base ::
  "bool \<Rightarrow> bool \<Rightarrow> addr \<Rightarrow> addr option \<Rightarrow> ('k::linorder) rbtree \<Rightarrow> 'k rbtree option" where
  "insert_leaf_base multiple on_equality_prefer_left node start t0 = do {
     let t = set_left node None (set_right node None t0);
     parent \<leftarrow> insert_descend (heap t) node start start;
     case parent of
       None \<Rightarrow>
         Some (equality_list_insert_after multiple node None
                (set_root (Some node) (set_color node BLACK (set_parent node None t))))
     | Some p \<Rightarrow>
         (let t1 = set_color node RED (set_parent node (Some p) t) in
          if key (heap t1 node) < key (heap t1 p) then
            fixup_after_insert node
              (equality_list_insert_after multiple node None (set_left p (Some node) t1))
          else if key (heap t1 p) < key (heap t1 node) then
            fixup_after_insert node
              (equality_list_insert_after multiple node None (set_right p (Some node) t1))
          else if \<not> multiple then Some t1
          else if on_equality_prefer_left then
            fixup_after_insert node
              (equality_list_insert_before multiple node (Some p) (set_left p (Some node) t1))
          else
            fixup_after_insert node
              (equality_list_insert_after multiple node (Some p) (set_right p (Some node) t1)))
   }"

definition insert_leaf :: "bool \<Rightarrow> addr \<Rightarrow> addr option \<Rightarrow> ('k::linorder) rbtree \<Rightarrow> 'k rbtree option" where
  "insert_leaf multiple node start t = insert_leaf_base multiple True node start t"

definition insert_leaf_right_biased ::
  "bool \<Rightarrow> addr \<Rightarrow> addr option \<Rightarrow> ('k::linorder) rbtree \<Rightarrow> 'k rbtree option" where
  "insert_leaf_right_biased multiple node start t = insert_leaf_base multiple False node start t"

text \<open>\<open>RBTree::insert(Node &)\<close>\<close>

definition rbt_insert :: "bool \<Rightarrow> addr \<Rightarrow> ('k::linorder) rbtree \<Rightarrow> 'k rbtree option" where
  "rbt_insert multiple node t = insert_leaf multiple node (root t) t"

text \<open>\<open>RBTree::insert(Node &, Node & hint)\<close>: the walk upwards, then the descent.\<close>

partial_function (option) hint_walk_up :: "('k::linorder) rbheap \<Rightarrow> addr \<Rightarrow> addr \<Rightarrow> addr option" where
  "hint_walk_up h node parent =
     (case rbt_parent (h parent) of
        None \<Rightarrow> Some parent
      | Some pp \<Rightarrow>
          if key (h node) < key (h pp) then hint_walk_up h node pp else Some parent)"

declare hint_walk_up.simps [code]

definition rbt_insert_hint ::
  "bool \<Rightarrow> addr \<Rightarrow> addr \<Rightarrow> ('k::linorder) rbtree \<Rightarrow> 'k rbtree option" where
  "rbt_insert_hint multiple node hint t = do {
     parent \<leftarrow> hint_walk_up (heap t) node hint;
     insert_leaf multiple node (Some parent) t
   }"

text \<open>\<open>RBTree::insert(Node &, const_iterator hint)\<close>\<close>

definition rbt_insert_hint_it ::
  "bool \<Rightarrow> addr \<Rightarrow> addr option \<Rightarrow> ('k::linorder) rbtree \<Rightarrow> 'k rbtree option" where
  "rbt_insert_hint_it multiple node hint t =
     (if hint = rbt_end t then
        (case root t of
           None \<Rightarrow> insert_leaf_right_biased multiple node None t
         | Some r \<Rightarrow> do {
             parent \<leftarrow> descend_right (heap t) r;
             insert_leaf_right_biased multiple node (Some parent) t
           })
      else (case hint of None \<Rightarrow> None | Some hn \<Rightarrow> rbt_insert_hint multiple node hn t))"

definition rbt_clear :: "'k rbtree \<Rightarrow> 'k rbtree" where
  "rbt_clear t = set_root None t"

subsection \<open>Lookup\<close>

partial_function (option) find_loop ::
  "bool \<Rightarrow> ('k::linorder) rbheap \<Rightarrow> 'k \<Rightarrow> addr option \<Rightarrow> addr option option" where
  "find_loop multiple h query cur =
     (case cur of
        None \<Rightarrow> Some None
      | Some c \<Rightarrow>
          if query < key (h c) then find_loop multiple h query (rbt_left (h c))
          else if key (h c) < query then find_loop multiple h query (rbt_right (h c))
          else map_option Some (equality_list_find_first multiple h c))"

declare find_loop.simps [code]

definition rbt_find :: "bool \<Rightarrow> 'k \<Rightarrow> ('k::linorder) rbtree \<Rightarrow> addr option option" where
  "rbt_find multiple query t = find_loop multiple (heap t) query (root t)"

partial_function (option) upper_bound_loop ::
  "('k::linorder) rbheap \<Rightarrow> 'k \<Rightarrow> addr option \<Rightarrow> addr option \<Rightarrow> addr option option" where
  "upper_bound_loop h query cur bound =
     (case cur of
        None \<Rightarrow> Some bound
      | Some c \<Rightarrow>
          if query < key (h c) then upper_bound_loop h query (rbt_left (h c)) (Some c)
          else if key (h c) < query then upper_bound_loop h query (rbt_right (h c)) bound
          else (let cur' = rbt_right (h c)
                in if cur' \<noteq> None then Some cur' else upper_bound_loop h query cur' bound))"

declare upper_bound_loop.simps [code]

definition upper_bound :: "'k \<Rightarrow> ('k::linorder) rbtree \<Rightarrow> addr option option" where
  "upper_bound query t = upper_bound_loop (heap t) query (root t) None"

subsection \<open>Removal\<close>

definition swap_neighbors :: "addr \<Rightarrow> addr \<Rightarrow> 'k rbtree \<Rightarrow> 'k rbtree" where
  "swap_neighbors parent child t =
     (let t1 = set_parent child (rbt_parent (heap t parent)) t;
          t2 = set_parent parent (Some child) t1;
          t3 = (case rbt_parent (heap t2 child) of
                  Some cp \<Rightarrow>
                    if rbt_left (heap t2 cp) = Some parent
                    then set_left cp (Some child) t2
                    else set_right cp (Some child) t2
                | None \<Rightarrow> set_root (Some child) t2)
      in if rbt_left (heap t3 parent) = Some child then
           (let t4 = set_left parent (rbt_left (heap t3 child)) t3;
                t5 = set_parent_of (rbt_left (heap t4 parent)) (Some parent) t4;
                t6 = set_left child (Some parent) t5;
                pr = rbt_right (heap t6 parent); cr = rbt_right (heap t6 child);
                t7 = set_right child pr (set_right parent cr t6);
                t8 = set_parent_of (rbt_right (heap t7 child)) (Some child) t7
            in set_parent_of (rbt_right (heap t8 parent)) (Some parent) t8)
         else
           (let t4 = set_right parent (rbt_right (heap t3 child)) t3;
                t5 = set_parent_of (rbt_right (heap t4 parent)) (Some parent) t4;
                t6 = set_right child (Some parent) t5;
                pl = rbt_left (heap t6 parent); cl = rbt_left (heap t6 child);
                t7 = set_left child pl (set_left parent cl t6);
                t8 = set_parent_of (rbt_left (heap t7 child)) (Some child) t7
            in set_parent_of (rbt_left (heap t8 parent)) (Some parent) t8))"

definition swap_unrelated_nodes :: "addr \<Rightarrow> addr \<Rightarrow> 'k rbtree \<Rightarrow> 'k rbtree" where
  "swap_unrelated_nodes n1 n2 t =
     (let l1 = rbt_left (heap t n1); l2 = rbt_left (heap t n2);
          ta = set_left n2 l1 (set_left n1 l2 t);
          tb = set_parent_of (rbt_left (heap ta n1)) (Some n1) ta;
          tc = set_parent_of (rbt_left (heap tb n2)) (Some n2) tb;
          r1 = rbt_right (heap tc n1); r2 = rbt_right (heap tc n2);
          td = set_right n2 r1 (set_right n1 r2 tc);
          te = set_parent_of (rbt_right (heap td n1)) (Some n1) td;
          tf = set_parent_of (rbt_right (heap te n2)) (Some n2) te;
          p1 = rbt_parent (heap tf n1); p2 = rbt_parent (heap tf n2);
          tg = set_parent n2 p1 (set_parent n1 p2 tf);
          th = (case rbt_parent (heap tg n1) of
                  Some q \<Rightarrow>
                    if rbt_right (heap tg q) = Some n2
                    then set_right q (Some n1) tg
                    else set_left q (Some n1) tg
                | None \<Rightarrow> set_root (Some n1) tg)
      in (case rbt_parent (heap th n2) of
            Some q \<Rightarrow>
              if rbt_right (heap th q) = Some n1
              then set_right q (Some n2) th
              else set_left q (Some n2) th
          | None \<Rightarrow> set_root (Some n2) th))"

definition swap_nodes ::
  "bool \<Rightarrow> addr \<Rightarrow> addr \<Rightarrow> bool \<Rightarrow> ('k::linorder) rbtree \<Rightarrow> 'k rbtree" where
  "swap_nodes multiple n1 n2 swap_colors t =
     (let t1 = (if rbt_parent (heap t n1) = Some n2 then swap_neighbors n2 n1 t
                else if rbt_parent (heap t n2) = Some n1 then swap_neighbors n1 n2 t
                else swap_unrelated_nodes n1 n2 t);
          t2 = equality_list_swap_if_necessary multiple n1 n2 t1
      in if \<not> swap_colors
         then (let c1 = rbt_color (heap t2 n1); c2 = rbt_color (heap t2 n2)
               in set_color n2 c1 (set_color n1 c2 t2))
         else t2)"

definition is_black_or_null :: "'k rbheap \<Rightarrow> addr option \<Rightarrow> bool" where
  "is_black_or_null h p = (case p of None \<Rightarrow> True | Some c \<Rightarrow> rbt_color (h c) = BLACK)"

text \<open>
  The propagation loop of \<open>fixup_after_delete\<close> (case 3). It ends by the \<open>return\<close> at
  the root (second component \<open>None\<close>) or leaves the loop with the current \<open>parent\<close>,
  \<open>deleted_left\<close> and \<open>sibling\<close>. The conjunction is evaluated left to right, so a null
  \<open>sibling\<close> is only dereferenced under a black parent.
\<close>

partial_function (option) fixup_delete_loop ::
  "addr \<Rightarrow> bool \<Rightarrow> 'k rbtree \<Rightarrow> ('k rbtree \<times> (addr \<times> bool \<times> addr option) option) option" where
  "fixup_delete_loop parent deleted_left t =
     (let sibling = (if deleted_left then rbt_right (heap t parent) else rbt_left (heap t parent))
      in if rbt_color (heap t parent) = BLACK then do {
           s \<leftarrow> sibling;
           if rbt_color (heap t s) = BLACK
              \<and> is_black_or_null (heap t) (rbt_left (heap t s))
              \<and> is_black_or_null (heap t) (rbt_right (heap t s))
           then (let t1 = set_color s RED t
                 in case rbt_parent (heap t1 parent) of
                      None \<Rightarrow> Some (t1, None)
                    | Some pp \<Rightarrow>
                        fixup_delete_loop pp (rbt_left (heap t1 pp) = Some parent) t1)
           else Some (t, Some (parent, deleted_left, sibling))
         }
         else Some (t, Some (parent, deleted_left, sibling)))"

declare fixup_delete_loop.simps [code]

definition fixup_after_delete :: "addr \<Rightarrow> bool \<Rightarrow> 'k rbtree \<Rightarrow> 'k rbtree option" where
  "fixup_after_delete parent0 deleted_left0 t0 = do {
     (t, r) \<leftarrow> fixup_delete_loop parent0 deleted_left0 t0;
     case r of
       None \<Rightarrow> Some t
     | Some (parent, deleted_left, sibling_ptr) \<Rightarrow> do {
         sibling0 \<leftarrow> sibling_ptr;
         (t2, sibling) \<leftarrow>
           (if rbt_color (heap t sibling0) = RED then do {
              let ta = set_color parent RED (set_color sibling0 BLACK t);
              if deleted_left then do {
                tb \<leftarrow> rotate_left parent ta;
                s \<leftarrow> rbt_right (heap tb parent);
                Some (tb, s)
              } else do {
                tb \<leftarrow> rotate_right parent ta;
                s \<leftarrow> rbt_left (heap tb parent);
                Some (tb, s)
              }
            } else Some (t, sibling0));
         if rbt_color (heap t2 sibling) = BLACK
            \<and> is_black_or_null (heap t2) (rbt_left (heap t2 sibling))
            \<and> is_black_or_null (heap t2) (rbt_right (heap t2 sibling))
         then Some (set_color sibling RED (set_color parent BLACK t2))
         else if deleted_left then do {
           (t3, sibling3) \<leftarrow>
             (if is_black_or_null (heap t2) (rbt_right (heap t2 sibling)) then do {
                ta \<leftarrow> rotate_right sibling t2;
                let tb = set_color sibling RED ta;
                s \<leftarrow> rbt_parent (heap tb sibling);
                Some (set_color s BLACK tb, s)
              } else Some (t2, sibling));
           t4 \<leftarrow> rotate_left parent t3;
           let pc = rbt_color (heap t4 parent);
           let sc = rbt_color (heap t4 sibling3);
           let t5 = set_color sibling3 pc (set_color parent sc t4);
           sr \<leftarrow> rbt_right (heap t5 sibling3);
           Some (set_color sr BLACK t5)
         } else do {
           (t3, sibling3) \<leftarrow>
             (if is_black_or_null (heap t2) (rbt_left (heap t2 sibling)) then do {
                ta \<leftarrow> rotate_left sibling t2;
                let tb = set_color sibling RED ta;
                s \<leftarrow> rbt_parent (heap tb sibling);
                Some (set_color s BLACK tb, s)
              } else Some (t2, sibling));
           t4 \<leftarrow> rotate_right parent t3;
           let pc = rbt_color (heap t4 parent);
           let sc = rbt_color (heap t4 sibling3);
           let t5 = set_color sibling3 pc (set_color parent sc t4);
           sl \<leftarrow> rbt_left (heap t5 sibling3);
           Some (set_color sl BLACK t5)
         }
       }
   }"

definition remove_to_leaf :: "bool \<Rightarrow> addr \<Rightarrow> ('k::linorder) rbtree \<Rightarrow> 'k rbtree option" where
  "remove_to_leaf multiple node t0 = do {
     child \<leftarrow>
       (case (rbt_right (heap t0 node), rbt_left (heap t0 node)) of
          (Some r, Some l) \<Rightarrow> descend_left (heap t0) r
        | (None, Some l) \<Rightarrow> Some l
        | _ \<Rightarrow> Some node);
     let t = (if child \<noteq> node then swap_nodes multiple node child False t0 else t0);
     case rbt_right (heap t node) of
       Some right_child \<Rightarrow>
         (let t1 = swap_nodes multiple node right_child True t;
              t2 = set_color right_child BLACK t1;
              t3 = set_right right_child None t2
          in Some (equality_list_delete_node multiple node t3))
     | None \<Rightarrow>
         (case rbt_parent (heap t node) of
            None \<Rightarrow> Some (set_root None t)
          | Some p \<Rightarrow>
              (let deleted_left = (rbt_left (heap t p) = Some node);
                   t1 = (if deleted_left then set_left p None t else set_right p None t);
                   t2 = equality_list_delete_node multiple node t1
               in if rbt_color (heap t2 node) = BLACK
                  then do {
                    np \<leftarrow> rbt_parent (heap t2 node);
                    fixup_after_delete np deleted_left t2
                  }
                  else Some t2))
   }"

text \<open>\<open>RBTree::remove(Node &)\<close>\<close>

definition rbt_remove :: "bool \<Rightarrow> addr \<Rightarrow> ('k::linorder) rbtree \<Rightarrow> 'k rbtree option" where
  "rbt_remove multiple node t = remove_to_leaf multiple node t"

subsection \<open>Trees built by the public operations\<close>

text \<open>\<open>RBTree() : root(nullptr)\<close>, over a store of caller-owned nodes.\<close>

definition rbtree_new :: "'k rbheap \<Rightarrow> 'k rbtree" where
  "rbtree_new h = \<lparr>root = None, heap = h\<rparr>"

text \<open>A store of unlinked nodes: the node at address \<open>a\<close> carries the key \<open>kf a\<close>.\<close>

definition keyed_nodes :: "(addr \<Rightarrow> 'k) \<Rightarrow> 'k rbheap" where
  "keyed_nodes kf = (\<lambda>a. \<lparr>key = kf a, rbt_left = None, rbt_right = None, rbt_parent = None,
      rbt_color = RED, rbt_prev = None, rbt_next = None\<rparr>)"

datatype rbt_op = Insert addr | Remove addr

fun rbt_apply :: "bool \<Rightarrow> rbt_op \<Rightarrow> ('k::linorder) rbtree \<Rightarrow> 'k rbtree option" where
  "rbt_apply multiple (Insert n) t = rbt_insert multiple n t"
| "rbt_apply multiple (Remove n) t = rbt_remove multiple n t"

fun rbt_run :: "bool \<Rightarrow> rbt_op list \<Rightarrow> ('k::linorder) rbtree \<Rightarrow> 'k rbtree option" where
  "rbt_run multiple [] t = Some t"
| "rbt_run multiple (x # xs) t = Option.bind (rbt_apply multiple x t) (rbt_run multiple xs)"

text \<open>The keys of the nodes an iteration visits, in the order of the visit.\<close>

definition rbt_keys :: "'k rbtree \<Rightarrow> 'k list option" where
  "rbt_keys t = map_option (map (\<lambda>n. key (heap t n))) (rbt_iterate t)"

section \<open>Energy tree (energy.cpp)\<close>

text \<open>
  \<open>_et_size\<close> and \<open>_et_energy\<close> are \<open>size_t\<close> counters: 64-bit words, so that
  \<open>-= 1\<close> on 0 wraps as in the source. The tree object owns the root link and the
  scratch buffer \<open>rebuild_buffer\<close> of the rebuilds (a \<open>std::vector\<close> of node pointers).
\<close>

record 'k etnode =
  et_key :: 'k
  et_left :: "addr option"
  et_right :: "addr option"
  et_parent :: "addr option"
  et_size :: "64 word"
  et_energy :: "64 word"

type_synonym 'k etheap = "addr \<Rightarrow> 'k etnode"

record 'k etree =
  et_root :: "addr option"
  et_heap :: "'k etheap"
  rebuild_buffer :: "addr option list"

definition et_set_left :: "addr \<Rightarrow> addr option \<Rightarrow> 'k etree \<Rightarrow> 'k etree" where
  "et_set_left a v t = t\<lparr>et_heap := (et_heap t)(a := (et_heap t a)\<lparr>et_left := v\<rparr>)\<rparr>"

definition et_set_right :: "addr \<Rightarrow> addr option \<Rightarrow> 'k etree \<Rightarrow> 'k etree" where
  "et_set_right a v t = t\<lparr>et_heap := (et_heap t)(a := (et_heap t a)\<lparr>et_right := v\<rparr>)\<rparr>"

definition et_set_parent :: "addr \<Rightarrow> addr option \<Rightarrow> 'k etree \<Rightarrow> 'k etree" where
  "et_set_parent a v t = t\<lparr>et_heap := (et_heap t)(a := (et_heap t a)\<lparr>et_parent := v\<rparr>)\<rparr>"

definition et_set_size :: "addr \<Rightarrow> 64 word \<Rightarrow> 'k etree \<Rightarrow> 'k etree" where
  "et_set_size a v t = t\<lparr>et_heap := (et_heap t)(a := (et_heap t a)\<lparr>et_size := v\<rparr>)\<rparr>"

definition et_set_energy :: "addr \<Rightarrow> 64 word \<Rightarrow> 'k etree \<Rightarrow> 'k etree" where
  "et_set_energy a v t = t\<lparr>et_heap := (et_heap t)(a := (et_heap t a)\<lparr>et_energy := v\<rparr>)\<rparr>"

definition et_set_root :: "addr option \<Rightarrow> 'k etree \<Rightarrow> 'k etree" where
  "et_set_root v t = t\<lparr>et_root := v\<rparr>"

text \<open>
  \<open>energy > 0.5 * size\<close>: both counters are converted to \<open>double\<close>. The conversion
  rounds to 53 significant bits, to the nearest value and to the even one on a tie;
  it is exact below \<open>2^53\<close>. \<open>dbl_shift n\<close> is the number of low bits that do not fit.
  Halving a \<open>double\<close> is exact, so the test compares the two rounded numbers.
\<close>

function dbl_shift :: "int \<Rightarrow> nat" where
  "dbl_shift n = (if n < 9007199254740992 then 0 else 1 + dbl_shift (n div 2))"
  by pat_completeness auto

termination
  by (relation "measure nat") auto

declare dbl_shift.simps [simp del]

definition to_double :: "int \<Rightarrow> int" where
  "to_double n =
     (let e = dbl_shift n; q = n div 2 ^ e; r = n mod 2 ^ e
      in if e = 0 then n
         else (if 2 ^ (e - 1) < r \<or> (r = 2 ^ (e - 1) \<and> odd q) then q + 1 else q) * 2 ^ e)"

definition et_overcharged :: "'k etnode \<Rightarrow> bool" where
  "et_overcharged n = (to_double (uint (et_size n)) < 2 * to_double (uint (et_energy n)))"

subsection \<open>Iteration and the debug check\<close>

partial_function (option) et_descend_left :: "'k etheap \<Rightarrow> addr \<Rightarrow> addr option" where
  "et_descend_left h n =
     (case et_left (h n) of None \<Rightarrow> Some n | Some l \<Rightarrow> et_descend_left h l)"

declare et_descend_left.simps [code]

partial_function (option) et_descend_right :: "'k etheap \<Rightarrow> addr \<Rightarrow> addr option" where
  "et_descend_right h n =
     (case et_right (h n) of None \<Rightarrow> Some n | Some r \<Rightarrow> et_descend_right h r)"

declare et_descend_right.simps [code]

partial_function (option) et_skip_visited :: "'k etheap \<Rightarrow> addr \<Rightarrow> addr option" where
  "et_skip_visited h n =
     (case et_parent (h n) of
        None \<Rightarrow> Some n
      | Some p \<Rightarrow> if et_right (h p) = Some n then et_skip_visited h p else Some n)"

declare et_skip_visited.simps [code]

text \<open>
  Modelled from the spec: the iterator of the Energy tree (\<open>operator++\<close> of
  \<open>energy.hpp\<close>, which is not among the sources). The spec has one iterator layer,
  "forward/reverse in-order traversal", and the rebuild iterates "using the existing
  iterator"; the step is that of \<open>step_forward\<close> in rbtree.cpp over the \<open>_et_\<close> links.
\<close>

definition et_step_forward :: "'k etheap \<Rightarrow> addr \<Rightarrow> addr option option" where
  "et_step_forward h n =
     (case et_right (h n) of
        Some r \<Rightarrow> map_option Some (et_descend_left h r)
      | None \<Rightarrow> map_option (\<lambda>m. et_parent (h m)) (et_skip_visited h n))"

definition et_get_smallest :: "'k etree \<Rightarrow> addr option option" where
  "et_get_smallest t =
     (case et_root t of
        None \<Rightarrow> Some None
      | Some r \<Rightarrow> map_option Some (et_descend_left (et_heap t) r))"

partial_function (option) et_iterate_from :: "'k etheap \<Rightarrow> addr option \<Rightarrow> addr list option" where
  "et_iterate_from h it =
     (case it of
        None \<Rightarrow> Some []
      | Some n \<Rightarrow>
          (case et_step_forward h n of
             None \<Rightarrow> None
           | Some nxt \<Rightarrow> Option.bind (et_iterate_from h nxt) (\<lambda>ns. Some (n # ns))))"

declare et_iterate_from.simps [code]

definition et_iterate :: "'k etree \<Rightarrow> addr list option" where
  "et_iterate t =
     (case et_get_smallest t of None \<Rightarrow> None | Some it \<Rightarrow> et_iterate_from (et_heap t) it)"

definition et_empty :: "'k etree \<Rightarrow> bool" where
  "et_empty t = (et_root t = None)"

definition et_child_size :: "'k etheap \<Rightarrow> addr option \<Rightarrow> 64 word" where
  "et_child_size h p = (case p of None \<Rightarrow> 0 | Some c \<Rightarrow> et_size (h c))"

definition et_size_ok :: "'k etheap \<Rightarrow> addr \<Rightarrow> bool" where
  "et_size_ok h n =
     (et_size (h n) = et_child_size h (et_left (h n)) + et_child_size h (et_right (h n)) + 1)"

text \<open>
  \<open>dbg_verify\<close> (that is \<open>dbg_verify_sizes\<close>) walks the tree with the iterator and
  \<open>debug::yggassert\<close>s the size equation at every node it visits. \<open>debug.hpp\<close> is not
  among the sources; \<open>verify_integrity\<close> catches \<open>debug::VerifyException\<close> around
  \<open>dbg_verify\<close>, so a failed \<open>yggassert\<close> throws. The walk yields \<open>Some False\<close> when
  the exception is thrown at a node, \<open>Some True\<close> when it reaches the end.
\<close>

partial_function (option) dbg_verify_sizes_from :: "'k etheap \<Rightarrow> addr option \<Rightarrow> bool option" where
  "dbg_verify_sizes_from h it =
     (case it of
        None \<Rightarrow> Some True
      | Some n \<Rightarrow>
          if \<not> et_size_ok h n then Some False
          else (case et_step_forward h n of
                  None \<Rightarrow> None
                | Some nxt \<Rightarrow> dbg_verify_sizes_from h nxt))"

declare dbg_verify_sizes_from.simps [code]

definition dbg_verify_sizes :: "'k etree \<Rightarrow> bool option" where
  "dbg_verify_sizes t =
     (case et_get_smallest t of
        None \<Rightarrow> None
      | Some it \<Rightarrow> dbg_verify_sizes_from (et_heap t) it)"

text \<open>
  Inside \<open>insert\<close> and \<open>rebuild_below\<close> nothing catches the exception: the operation
  fails. The flag \<open>debug\<close> says whether the checks (\<open>yggassert\<close> and the \<open>assert\<close>s) are
  compiled in. The loop of \<open>dbg_verify_sizes\<close> is not guarded by anything: without the
  checks it still walks the whole tree with the iterator, and \<open>dbg_verify\<close> returns only
  when that walk reaches the end.
\<close>

partial_function (option) dbg_walk_from :: "'k etheap \<Rightarrow> addr option \<Rightarrow> unit option" where
  "dbg_walk_from h it =
     (case it of
        None \<Rightarrow> Some ()
      | Some n \<Rightarrow>
          (case et_step_forward h n of
             None \<Rightarrow> None
           | Some nxt \<Rightarrow> dbg_walk_from h nxt))"

declare dbg_walk_from.simps [code]

definition dbg_verify :: "bool \<Rightarrow> 'k etree \<Rightarrow> unit option" where
  "dbg_verify debug t =
     (if debug then (case dbg_verify_sizes t of Some True \<Rightarrow> Some () | _ \<Rightarrow> None)
      else (case et_get_smallest t of
              None \<Rightarrow> None
            | Some it \<Rightarrow> dbg_walk_from (et_heap t) it))"

definition et_verify_integrity :: "'k etree \<Rightarrow> bool option" where
  "et_verify_integrity t = dbg_verify_sizes t"

definition dbg_assert :: "bool \<Rightarrow> bool \<Rightarrow> unit option" where
  "dbg_assert debug c = (if debug \<and> \<not> c then None else Some ())"

subsection \<open>Rebuild\<close>

text \<open>
  \<open>(int) std::ceil(std::log2(n))\<close> for a positive count \<open>n\<close>: the least \<open>l\<close> with
  \<open>n \<le> 2^l\<close>.
\<close>

fun ceil_log2 :: "nat \<Rightarrow> nat" where
  "ceil_log2 n = (if n \<le> 1 then 0 else Suc (ceil_log2 ((n + 1) div 2)))"

declare ceil_log2.simps [simp del]

text \<open>\<open>__builtin_ctz\<close> on the low 32 bits of its argument.\<close>

fun ctz_bits :: "nat \<Rightarrow> int \<Rightarrow> int" where
  "ctz_bits 0 n = 0"
| "ctz_bits (Suc b) n = (if odd n then 0 else 1 + ctz_bits b (n div 2))"

definition builtin_ctz :: "int \<Rightarrow> int" where
  "builtin_ctz n = ctz_bits 32 (n mod 2 ^ 32)"

text \<open>\<open>1 << k\<close> on \<open>int\<close>: undefined for a negative or too large shift.\<close>

definition shl1 :: "int \<Rightarrow> int option" where
  "shl1 k = (if 0 \<le> k \<and> k < 31 then Some (2 ^ nat k) else None)"

text \<open>
  Buffer accesses. An index is computed in \<open>size_t\<close>, that is modulo \<open>2^64\<close>; an access
  out of the vector's range is undefined in the source and fails here.
\<close>

definition buf_get :: "addr option list \<Rightarrow> int \<Rightarrow> addr option option" where
  "buf_get buf i =
     (let j = nat (i mod 2 ^ 64) in if j < length buf then Some (buf ! j) else None)"

definition buf_set :: "addr option list \<Rightarrow> int \<Rightarrow> addr option \<Rightarrow> addr option list option" where
  "buf_set buf i v =
     (let j = nat (i mod 2 ^ 64) in if j < length buf then Some (buf[j := v]) else None)"

text \<open>\<open>rebuild_buffer[i]->\<close>: the slot must exist and hold a non-null pointer.\<close>

definition buf_node :: "addr option list \<Rightarrow> int \<Rightarrow> addr option" where
  "buf_node buf i = Option.bind (buf_get buf i) (\<lambda>p. p)"

definition buf_resize :: "nat \<Rightarrow> addr option list \<Rightarrow> addr option list" where
  "buf_resize n buf = take n buf @ replicate (n - length buf) None"

text \<open>
  The loop that places the nodes of the subtree, in in-order, into the buffer. \<open>it\<close> is
  the node the iterator stands on; \<open>counter\<close> is the 1-based in-order position.
\<close>

partial_function (option) rebuild_fill ::
  "'k etheap \<Rightarrow> int \<Rightarrow> int \<Rightarrow> addr \<Rightarrow> addr \<Rightarrow> int \<Rightarrow> addr option list
     \<Rightarrow> addr option list option" where
  "rebuild_fill h tree_levels full_tree_size largest it counter buf =
     (if it = largest then Some buf
      else do {
        nxt \<leftarrow> et_step_forward h it;
        n \<leftarrow> nxt;
        let counter1 = counter + 1;
        let level = builtin_ctz counter1;
        p \<leftarrow> shl1 (tree_levels - 1 - level);
        let prev_levels_size = p - 1;
        let this_level_size = prev_levels_size + 1;
        let level_offset = full_tree_size - prev_levels_size - this_level_size;
        let index_in_level = counter1 div 2 ^ nat (level + 1);
        buf1 \<leftarrow> buf_set buf (level_offset + index_in_level) (Some n);
        rebuild_fill h tree_levels full_tree_size largest n counter1 buf1
      })"

declare rebuild_fill.simps [code]

definition make_leaf :: "addr \<Rightarrow> 'k etree \<Rightarrow> 'k etree" where
  "make_leaf a t =
     et_set_energy a 0 (et_set_size a 1 (et_set_right a None (et_set_left a None t)))"

text \<open>\<open>for (; i < bottom_level_size - 1; i += 2)\<close>; the result carries the final \<open>i\<close>.\<close>

partial_function (option) link_bottom_pairs ::
  "addr option list \<Rightarrow> int \<Rightarrow> int \<Rightarrow> int \<Rightarrow> 'k etree \<Rightarrow> ('k etree \<times> int) option" where
  "link_bottom_pairs buf upper_offset bottom_level_size i t =
     (if i < (bottom_level_size - 1) mod 2 ^ 64 then do {
        u \<leftarrow> buf_node buf (upper_offset + i div 2);
        l \<leftarrow> buf_get buf i;
        let t1 = et_set_left u l t;
        r \<leftarrow> buf_get buf (i + 1);
        let t2 = et_set_energy u 0 (et_set_size u 3 (et_set_right u r t1));
        bl \<leftarrow> buf_node buf i;
        let t3 = et_set_parent bl (Some u) (make_leaf bl t2);
        br \<leftarrow> buf_node buf (i + 1);
        let t4 = et_set_energy br 0 (et_set_size br 1
                   (et_set_parent br (Some u) (et_set_right br None (et_set_left br None t3))));
        link_bottom_pairs buf upper_offset bottom_level_size (i + 2) t4
      } else Some (t, i))"

declare link_bottom_pairs.simps [code]

text \<open>\<open>for (size_t j = i / 2; j < ((1 << (tree_levels - 2)) - 1); j++)\<close>\<close>

partial_function (option) reset_second_level ::
  "addr option list \<Rightarrow> int \<Rightarrow> int \<Rightarrow> 'k etree \<Rightarrow> 'k etree option" where
  "reset_second_level buf bound j t =
     (if j < bound then do {
        n \<leftarrow> buf_node buf j;
        reset_second_level buf bound (j + 1) (make_leaf n t)
      } else Some t)"

declare reset_second_level.simps [code]

text \<open>\<open>for (i = 0; i < current_lower_level_size; i += 2)\<close> of one level.\<close>

partial_function (option) link_level ::
  "addr option list \<Rightarrow> int \<Rightarrow> int \<Rightarrow> int \<Rightarrow> int \<Rightarrow> 'k etree \<Rightarrow> 'k etree option" where
  "link_level buf lower_offset upper_offset current_lower_level_size i t =
     (if i < current_lower_level_size then do {
        u \<leftarrow> buf_node buf (upper_offset + i div 2);
        l \<leftarrow> buf_get buf (lower_offset + i);
        let t1 = et_set_left u l t;
        r \<leftarrow> buf_get buf (lower_offset + i + 1);
        let t2 = et_set_right u r t1;
        ln \<leftarrow> buf_node buf (lower_offset + i);
        rn \<leftarrow> buf_node buf (lower_offset + i + 1);
        let t3 = et_set_energy u 0
                   (et_set_size u (et_size (et_heap t2 ln) + et_size (et_heap t2 rn) + 1) t2);
        let t4 = et_set_parent ln (Some u) t3;
        let t5 = et_set_parent rn (Some u) t4;
        link_level buf lower_offset upper_offset current_lower_level_size (i + 2) t5
      } else Some t)"

declare link_level.simps [code]

text \<open>\<open>while (level < tree_levels - 1)\<close>; \<open>upper_offset\<close> is the one of the level below.\<close>

partial_function (option) climb_levels ::
  "addr option list \<Rightarrow> int \<Rightarrow> int \<Rightarrow> int \<Rightarrow> int \<Rightarrow> 'k etree \<Rightarrow> 'k etree option" where
  "climb_levels buf tree_levels full_tree_size upper_offset level t =
     (if level < tree_levels - 1 then do {
        let lower_offset = upper_offset;
        p \<leftarrow> shl1 (tree_levels - 1 - level);
        let upper_offset1 = full_tree_size - p + 1;
        let current_lower_level_size = upper_offset1 - lower_offset;
        t1 \<leftarrow> link_level buf lower_offset upper_offset1 current_lower_level_size 0 t;
        climb_levels buf tree_levels full_tree_size upper_offset1 (level + 1) t1
      } else Some t)"

declare climb_levels.simps [code]

definition rebuild_below :: "bool \<Rightarrow> addr \<Rightarrow> 'k etree \<Rightarrow> 'k etree option" where
  "rebuild_below debug node t0 = do {
     _ \<leftarrow> dbg_verify debug t0;
     let n1 = unat (et_size (et_heap t0 node) + 1);
     _ \<leftarrow> (if n1 = 0 then None else Some ());
     let tree_levels = int (ceil_log2 n1);
     p \<leftarrow> shl1 tree_levels;
     let full_tree_size = p - 1;
     let buf0 = buf_resize (nat full_tree_size) (rebuild_buffer t0);
     let original_parent = et_parent (et_heap t0 node);
     let original_size = et_size (et_heap t0 node);
     smallest \<leftarrow> et_descend_left (et_heap t0) node;
     largest \<leftarrow> et_descend_right (et_heap t0) node;
     buf1 \<leftarrow> buf_set buf0 0 (Some smallest);
     buf \<leftarrow> rebuild_fill (et_heap t0) tree_levels full_tree_size largest smallest 1 buf1;
     let t = t0\<lparr>rebuild_buffer := buf\<rparr>;
     let upper_offset = (full_tree_size + 1) div 2;
     let bottom_level_size =
           (upper_offset - (full_tree_size - int (unat (et_size (et_heap t node))))) mod 2 ^ 64;
     t4 \<leftarrow> (if tree_levels > 1 then do {
              (t1, i) \<leftarrow> link_bottom_pairs buf upper_offset bottom_level_size 0 t;
              (t2, i2) \<leftarrow> (if i < bottom_level_size then do {
                   u \<leftarrow> buf_node buf (upper_offset + i div 2);
                   l \<leftarrow> buf_get buf i;
                   let ta = et_set_energy u 0 (et_set_size u 2
                              (et_set_right u None (et_set_left u l t1)));
                   bl \<leftarrow> buf_node buf i;
                   Some (et_set_energy bl 0 (et_set_size bl 1 (et_set_parent bl (Some u)
                           (et_set_right bl None (et_set_left bl None ta)))), i + 2)
                 } else Some (t1, i));
              q \<leftarrow> shl1 (tree_levels - 2);
              t3 \<leftarrow> reset_second_level buf (q - 1) (i2 div 2) t2;
              climb_levels buf tree_levels full_tree_size upper_offset 1 t3
            } else Some t);
     back \<leftarrow> buf_node buf (full_tree_size - 1);
     let t5 = et_set_parent back original_parent t4;
     t6 \<leftarrow> (case original_parent of
              None \<Rightarrow> Some (et_set_root (Some back) t5)
            | Some op \<Rightarrow>
                if et_left (et_heap t5 op) = Some node
                then Some (et_set_left op (Some back) t5)
                else do {
                  _ \<leftarrow> dbg_assert debug (et_right (et_heap t5 op) = Some node);
                  Some (et_set_right op (Some back) t5)
                });
     let t7 = et_set_energy back 0 (et_set_size back original_size t6);
     _ \<leftarrow> dbg_verify debug t7;
     Some t7
   }"

subsection \<open>Insert and remove\<close>

text \<open>
  The descent of \<open>insert\<close>; the result carries \<open>rebuild_at\<close>, the shallowest overcharged
  node of the path.
\<close>

partial_function (option) et_insert_loop ::
  "addr \<Rightarrow> addr \<Rightarrow> addr option \<Rightarrow> ('k::linorder) etree \<Rightarrow> ('k etree \<times> addr option) option" where
  "et_insert_loop node cur rebuild_at t =
     (let t1 = et_set_size cur (et_size (et_heap t cur) + 1) t;
          t2 = et_set_energy cur (et_energy (et_heap t1 cur) + 1) t1;
          rebuild_at1 = (if rebuild_at = None \<and> et_overcharged (et_heap t2 cur)
                         then Some cur else rebuild_at)
      in if et_key (et_heap t2 cur) < et_key (et_heap t2 node) then
           (case et_right (et_heap t2 cur) of
              Some r \<Rightarrow> et_insert_loop node r rebuild_at1 t2
            | None \<Rightarrow>
                Some (et_set_parent node (Some cur) (et_set_right cur (Some node) t2),
                      rebuild_at1))
         else
           (case et_left (et_heap t2 cur) of
              Some l \<Rightarrow> et_insert_loop node l rebuild_at1 t2
            | None \<Rightarrow>
                Some (et_set_parent node (Some cur) (et_set_left cur (Some node) t2),
                      rebuild_at1)))"

declare et_insert_loop.simps [code]

definition et_insert :: "bool \<Rightarrow> addr \<Rightarrow> ('k::linorder) etree \<Rightarrow> 'k etree option" where
  "et_insert debug node t0 = do {
     _ \<leftarrow> dbg_verify debug t0;
     let t = et_set_right node None (et_set_left node None
               (et_set_energy node 0 (et_set_size node 1 t0)));
     case et_root t of
       None \<Rightarrow> Some (et_set_parent node None (et_set_root (Some node) t))
     | Some r \<Rightarrow> do {
         (t1, rebuild_at) \<leftarrow> et_insert_loop node r None t;
         _ \<leftarrow> dbg_verify debug t1;
         case rebuild_at of
           None \<Rightarrow> Some t1
         | Some ra \<Rightarrow> rebuild_below debug ra t1
       }
   }"

text \<open>The walk from the removed node to the root; the flag is \<open>rebuild_set_upwards\<close>.\<close>

partial_function (option) et_remove_up ::
  "addr \<Rightarrow> addr option \<Rightarrow> bool \<Rightarrow> 'k etree \<Rightarrow> ('k etree \<times> addr option \<times> bool) option" where
  "et_remove_up cur rebuild_at rebuild_set_upwards t =
     (case et_parent (et_heap t cur) of
        None \<Rightarrow> Some (t, rebuild_at, rebuild_set_upwards)
      | Some p \<Rightarrow>
          (let t1 = et_set_size p (et_size (et_heap t p) - 1) t;
               t2 = et_set_energy p (et_energy (et_heap t1 p) + 1) t1
           in if et_overcharged (et_heap t2 p)
              then et_remove_up p (Some p) True t2
              else et_remove_up p rebuild_at rebuild_set_upwards t2))"

declare et_remove_up.simps [code]

text \<open>
  The search for the replacement below the removed node \<open>cur\<close>: to the right from the
  left child (\<open>go_right\<close>) or to the left from the right child. The overcharge test reads
  \<open>cur\<close>, as the source does.
\<close>

partial_function (option) et_remove_down ::
  "bool \<Rightarrow> addr \<Rightarrow> addr \<Rightarrow> addr option \<Rightarrow> 'k etree \<Rightarrow> ('k etree \<times> addr \<times> addr option) option" where
  "et_remove_down go_right cur child rebuild_at t =
     (case (if go_right then et_right (et_heap t child) else et_left (et_heap t child)) of
        None \<Rightarrow> Some (t, child, rebuild_at)
      | Some nxt \<Rightarrow>
          (let t1 = et_set_size child (et_size (et_heap t child) - 1) t;
               t2 = et_set_energy child (et_energy (et_heap t1 child) + 1) t1;
               rebuild_at1 = (if rebuild_at = None \<and> et_overcharged (et_heap t2 cur)
                              then Some child else rebuild_at)
           in et_remove_down go_right cur nxt rebuild_at1 t2))"

declare et_remove_down.simps [code]

definition et_remove :: "bool \<Rightarrow> addr \<Rightarrow> 'k etree \<Rightarrow> 'k etree option" where
  "et_remove debug node t0 = do {
     (t, rebuild_up, rebuild_set_upwards) \<leftarrow> et_remove_up node None False t0;
     (t9, rebuild_at) \<leftarrow>
       (if et_left (et_heap t node) = None \<and> et_right (et_heap t node) = None then
          (case et_parent (et_heap t node) of
             None \<Rightarrow> Some (et_set_root None t, rebuild_up)
           | Some parent \<Rightarrow>
               if et_left (et_heap t parent) = Some node
               then Some (et_set_left parent None t, rebuild_up)
               else do {
                 _ \<leftarrow> dbg_assert debug (et_right (et_heap t parent) = Some node);
                 Some (et_set_right parent None t, rebuild_up)
               })
        else do {
          (t3, child, rebuild_down) \<leftarrow>
            (case et_left (et_heap t node) of
               Some l \<Rightarrow> do {
                 (t1, child, ra) \<leftarrow> et_remove_down True node l rebuild_up t;
                 t2 \<leftarrow> (case et_left (et_heap t1 child) of
                          None \<Rightarrow> Some t1
                        | Some cl \<Rightarrow> do {
                            cp \<leftarrow> et_parent (et_heap t1 child);
                            ta \<leftarrow> (if et_right (et_heap t1 cp) = Some child
                                   then Some (et_set_right cp (Some cl) t1)
                                   else do {
                                     _ \<leftarrow> dbg_assert debug (et_left (et_heap t1 cp) = Some child);
                                     Some (et_set_left cp (Some cl) t1)
                                   });
                            cl2 \<leftarrow> et_left (et_heap ta child);
                            Some (et_set_parent cl2 (et_parent (et_heap ta child)) ta)
                          });
                 Some (t2, child, ra)
               }
             | None \<Rightarrow> do {
                 r \<leftarrow> et_right (et_heap t node);
                 (t1, child, ra) \<leftarrow> et_remove_down False node r rebuild_up t;
                 t2 \<leftarrow> (case et_right (et_heap t1 child) of
                          None \<Rightarrow> Some t1
                        | Some cr \<Rightarrow> do {
                            cp \<leftarrow> et_parent (et_heap t1 child);
                            ta \<leftarrow> (if et_left (et_heap t1 cp) = Some child
                                   then Some (et_set_left cp (Some cr) t1)
                                   else do {
                                     _ \<leftarrow> dbg_assert debug (et_right (et_heap t1 cp) = Some child);
                                     Some (et_set_right cp (Some cr) t1)
                                   });
                            cr2 \<leftarrow> et_right (et_heap ta child);
                            Some (et_set_parent cr2 (et_parent (et_heap ta child)) ta)
                          });
                 Some (t2, child, ra)
               });
          let t4 = et_set_left child (et_left (et_heap t3 node)) t3;
          let t5 = et_set_right child (et_right (et_heap t4 node)) t4;
          t6 \<leftarrow> (case et_parent (et_heap t5 node) of
                   None \<Rightarrow> Some (et_set_root (Some child) t5)
                 | Some np \<Rightarrow>
                     if et_left (et_heap t5 np) = Some node
                     then Some (et_set_left np (Some child) t5)
                     else do {
                       _ \<leftarrow> dbg_assert debug (et_right (et_heap t5 np) = Some node);
                       Some (et_set_right np (Some child) t5)
                     });
          let t7 = et_set_parent child (et_parent (et_heap t6 node)) t6;
          let t8 = et_set_energy child (et_energy (et_heap t7 node) + 1) t7;
          let t9 = et_set_size child (et_size (et_heap t8 node) - 1) t8;
          Some (t9, if \<not> rebuild_set_upwards \<and> et_overcharged (et_heap t9 child)
                    then Some child else rebuild_down)
        });
     case rebuild_at of
       None \<Rightarrow> Some t9
     | Some ra \<Rightarrow> rebuild_below debug ra t9
   }"

text \<open>\<open>EnergyTree() : root(nullptr)\<close>, over a store of caller-owned nodes.\<close>

definition etree_new :: "'k etheap \<Rightarrow> 'k etree" where
  "etree_new h = \<lparr>et_root = None, et_heap = h, rebuild_buffer = []\<rparr>"

definition et_keyed_nodes :: "(addr \<Rightarrow> 'k) \<Rightarrow> 'k etheap" where
  "et_keyed_nodes kf = (\<lambda>a. \<lparr>et_key = kf a, et_left = None, et_right = None,
      et_parent = None, et_size = 0, et_energy = 0\<rparr>)"

fun et_apply :: "bool \<Rightarrow> rbt_op \<Rightarrow> ('k::linorder) etree \<Rightarrow> 'k etree option" where
  "et_apply debug (Insert n) t = et_insert debug n t"
| "et_apply debug (Remove n) t = et_remove debug n t"

fun et_run :: "bool \<Rightarrow> rbt_op list \<Rightarrow> ('k::linorder) etree \<Rightarrow> 'k etree option" where
  "et_run debug [] t = Some t"
| "et_run debug (x # xs) t = Option.bind (et_apply debug x t) (et_run debug xs)"

section \<open>Basic facts about the store\<close>

text \<open>
  Reading a field after a write: one rule per field and setter, so that a read never
  rebuilds the node record.
\<close>

lemma heap_set:
  "heap (set_left a v t) = (heap t)(a := (heap t a)\<lparr>rbt_left := v\<rparr>)"
  "heap (set_right a v t) = (heap t)(a := (heap t a)\<lparr>rbt_right := v\<rparr>)"
  "heap (set_parent a v t) = (heap t)(a := (heap t a)\<lparr>rbt_parent := v\<rparr>)"
  "heap (set_color a c t) = (heap t)(a := (heap t a)\<lparr>rbt_color := c\<rparr>)"
  "heap (set_prev a v t) = (heap t)(a := (heap t a)\<lparr>rbt_prev := v\<rparr>)"
  "heap (set_next a v t) = (heap t)(a := (heap t a)\<lparr>rbt_next := v\<rparr>)"
  "heap (set_root r t) = heap t"
  by (simp_all add: set_left_def set_right_def set_parent_def set_color_def set_prev_def
      set_next_def set_root_def)

lemma root_set [simp]:
  "root (set_left a v t) = root t"
  "root (set_right a v t) = root t"
  "root (set_parent a v t) = root t"
  "root (set_color a c t) = root t"
  "root (set_prev a v t) = root t"
  "root (set_next a v t) = root t"
  "root (set_root r t) = r"
  "root (set_parent_of p v t) = root t"
  by (simp_all add: set_left_def set_right_def set_parent_def set_color_def set_prev_def
      set_next_def set_root_def set_parent_of_def split: option.splits)

lemma rbt_left_set [simp]:
  "rbt_left (heap (set_left a v t) x) = (if x = a then v else rbt_left (heap t x))"
  "rbt_left (heap (set_right a v t) x) = rbt_left (heap t x)"
  "rbt_left (heap (set_parent a v t) x) = rbt_left (heap t x)"
  "rbt_left (heap (set_color a c t) x) = rbt_left (heap t x)"
  "rbt_left (heap (set_prev a v t) x) = rbt_left (heap t x)"
  "rbt_left (heap (set_next a v t) x) = rbt_left (heap t x)"
  "rbt_left (heap (set_root r t) x) = rbt_left (heap t x)"
  "rbt_left (heap (set_parent_of p v t) x) = rbt_left (heap t x)"
  by (simp_all add: heap_set set_parent_of_def split: option.splits)

lemma rbt_right_set [simp]:
  "rbt_right (heap (set_left a v t) x) = rbt_right (heap t x)"
  "rbt_right (heap (set_right a v t) x) = (if x = a then v else rbt_right (heap t x))"
  "rbt_right (heap (set_parent a v t) x) = rbt_right (heap t x)"
  "rbt_right (heap (set_color a c t) x) = rbt_right (heap t x)"
  "rbt_right (heap (set_prev a v t) x) = rbt_right (heap t x)"
  "rbt_right (heap (set_next a v t) x) = rbt_right (heap t x)"
  "rbt_right (heap (set_root r t) x) = rbt_right (heap t x)"
  "rbt_right (heap (set_parent_of p v t) x) = rbt_right (heap t x)"
  by (simp_all add: heap_set set_parent_of_def split: option.splits)

lemma rbt_parent_set [simp]:
  "rbt_parent (heap (set_left a v t) x) = rbt_parent (heap t x)"
  "rbt_parent (heap (set_right a v t) x) = rbt_parent (heap t x)"
  "rbt_parent (heap (set_parent a v t) x) = (if x = a then v else rbt_parent (heap t x))"
  "rbt_parent (heap (set_color a c t) x) = rbt_parent (heap t x)"
  "rbt_parent (heap (set_prev a v t) x) = rbt_parent (heap t x)"
  "rbt_parent (heap (set_next a v t) x) = rbt_parent (heap t x)"
  "rbt_parent (heap (set_root r t) x) = rbt_parent (heap t x)"
  "rbt_parent (heap (set_parent_of p v t) x) = (if p = Some x then v else rbt_parent (heap t x))"
  by (simp_all add: heap_set set_parent_of_def split: option.splits)

lemma rbt_color_set [simp]:
  "rbt_color (heap (set_left a v t) x) = rbt_color (heap t x)"
  "rbt_color (heap (set_right a v t) x) = rbt_color (heap t x)"
  "rbt_color (heap (set_parent a v t) x) = rbt_color (heap t x)"
  "rbt_color (heap (set_color a c t) x) = (if x = a then c else rbt_color (heap t x))"
  "rbt_color (heap (set_prev a v t) x) = rbt_color (heap t x)"
  "rbt_color (heap (set_next a v t) x) = rbt_color (heap t x)"
  "rbt_color (heap (set_root r t) x) = rbt_color (heap t x)"
  "rbt_color (heap (set_parent_of p v t) x) = rbt_color (heap t x)"
  by (simp_all add: heap_set set_parent_of_def split: option.splits)

lemma rbt_prev_set [simp]:
  "rbt_prev (heap (set_left a v t) x) = rbt_prev (heap t x)"
  "rbt_prev (heap (set_right a v t) x) = rbt_prev (heap t x)"
  "rbt_prev (heap (set_parent a v t) x) = rbt_prev (heap t x)"
  "rbt_prev (heap (set_color a c t) x) = rbt_prev (heap t x)"
  "rbt_prev (heap (set_prev a v t) x) = (if x = a then v else rbt_prev (heap t x))"
  "rbt_prev (heap (set_next a v t) x) = rbt_prev (heap t x)"
  "rbt_prev (heap (set_root r t) x) = rbt_prev (heap t x)"
  "rbt_prev (heap (set_parent_of p v t) x) = rbt_prev (heap t x)"
  by (simp_all add: heap_set set_parent_of_def split: option.splits)

lemma rbt_next_set [simp]:
  "rbt_next (heap (set_left a v t) x) = rbt_next (heap t x)"
  "rbt_next (heap (set_right a v t) x) = rbt_next (heap t x)"
  "rbt_next (heap (set_parent a v t) x) = rbt_next (heap t x)"
  "rbt_next (heap (set_color a c t) x) = rbt_next (heap t x)"
  "rbt_next (heap (set_prev a v t) x) = rbt_next (heap t x)"
  "rbt_next (heap (set_next a v t) x) = (if x = a then v else rbt_next (heap t x))"
  "rbt_next (heap (set_root r t) x) = rbt_next (heap t x)"
  "rbt_next (heap (set_parent_of p v t) x) = rbt_next (heap t x)"
  by (simp_all add: heap_set set_parent_of_def split: option.splits)

lemma key_set [simp]:
  "key (heap (set_left a v t) x) = key (heap t x)"
  "key (heap (set_right a v t) x) = key (heap t x)"
  "key (heap (set_parent a v t) x) = key (heap t x)"
  "key (heap (set_color a c t) x) = key (heap t x)"
  "key (heap (set_prev a v t) x) = key (heap t x)"
  "key (heap (set_next a v t) x) = key (heap t x)"
  "key (heap (set_root r t) x) = key (heap t x)"
  "key (heap (set_parent_of p v t) x) = key (heap t x)"
  by (simp_all add: heap_set set_parent_of_def split: option.splits)

subsection \<open>Reading a field of the Energy tree after a write\<close>

lemma et_root_set [simp]:
  "et_root (et_set_left a v t) = et_root t"
  "et_root (et_set_right a v t) = et_root t"
  "et_root (et_set_parent a v t) = et_root t"
  "et_root (et_set_size a w t) = et_root t"
  "et_root (et_set_energy a w t) = et_root t"
  "et_root (et_set_root r t) = r"
  "et_root (make_leaf a t) = et_root t"
  "et_root (t\<lparr>rebuild_buffer := b\<rparr>) = et_root t"
  by (simp_all add: et_set_left_def et_set_right_def et_set_parent_def et_set_size_def
      et_set_energy_def et_set_root_def make_leaf_def)

lemma et_buffer_set [simp]:
  "rebuild_buffer (et_set_left a v t) = rebuild_buffer t"
  "rebuild_buffer (et_set_right a v t) = rebuild_buffer t"
  "rebuild_buffer (et_set_parent a v t) = rebuild_buffer t"
  "rebuild_buffer (et_set_size a w t) = rebuild_buffer t"
  "rebuild_buffer (et_set_energy a w t) = rebuild_buffer t"
  "rebuild_buffer (et_set_root r t) = rebuild_buffer t"
  "rebuild_buffer (make_leaf a t) = rebuild_buffer t"
  by (simp_all add: et_set_left_def et_set_right_def et_set_parent_def et_set_size_def
      et_set_energy_def et_set_root_def make_leaf_def)

lemma et_left_set [simp]:
  "et_left (et_heap (et_set_left a v t) x) = (if x = a then v else et_left (et_heap t x))"
  "et_left (et_heap (et_set_right a v t) x) = et_left (et_heap t x)"
  "et_left (et_heap (et_set_parent a v t) x) = et_left (et_heap t x)"
  "et_left (et_heap (et_set_size a w t) x) = et_left (et_heap t x)"
  "et_left (et_heap (et_set_energy a w t) x) = et_left (et_heap t x)"
  "et_left (et_heap (et_set_root r t) x) = et_left (et_heap t x)"
  "et_left (et_heap (t\<lparr>rebuild_buffer := b\<rparr>) x) = et_left (et_heap t x)"
  "et_left (et_heap (make_leaf a t) x) = (if x = a then None else et_left (et_heap t x))"
  by (simp_all add: et_set_left_def et_set_right_def et_set_parent_def et_set_size_def
      et_set_energy_def et_set_root_def make_leaf_def)

lemma et_right_set [simp]:
  "et_right (et_heap (et_set_left a v t) x) = et_right (et_heap t x)"
  "et_right (et_heap (et_set_right a v t) x) = (if x = a then v else et_right (et_heap t x))"
  "et_right (et_heap (et_set_parent a v t) x) = et_right (et_heap t x)"
  "et_right (et_heap (et_set_size a w t) x) = et_right (et_heap t x)"
  "et_right (et_heap (et_set_energy a w t) x) = et_right (et_heap t x)"
  "et_right (et_heap (et_set_root r t) x) = et_right (et_heap t x)"
  "et_right (et_heap (t\<lparr>rebuild_buffer := b\<rparr>) x) = et_right (et_heap t x)"
  "et_right (et_heap (make_leaf a t) x) = (if x = a then None else et_right (et_heap t x))"
  by (simp_all add: et_set_left_def et_set_right_def et_set_parent_def et_set_size_def
      et_set_energy_def et_set_root_def make_leaf_def)

lemma et_parent_set [simp]:
  "et_parent (et_heap (et_set_left a v t) x) = et_parent (et_heap t x)"
  "et_parent (et_heap (et_set_right a v t) x) = et_parent (et_heap t x)"
  "et_parent (et_heap (et_set_parent a v t) x) = (if x = a then v else et_parent (et_heap t x))"
  "et_parent (et_heap (et_set_size a w t) x) = et_parent (et_heap t x)"
  "et_parent (et_heap (et_set_energy a w t) x) = et_parent (et_heap t x)"
  "et_parent (et_heap (et_set_root r t) x) = et_parent (et_heap t x)"
  "et_parent (et_heap (t\<lparr>rebuild_buffer := b\<rparr>) x) = et_parent (et_heap t x)"
  "et_parent (et_heap (make_leaf a t) x) = et_parent (et_heap t x)"
  by (simp_all add: et_set_left_def et_set_right_def et_set_parent_def et_set_size_def
      et_set_energy_def et_set_root_def make_leaf_def)

lemma et_size_set [simp]:
  "et_size (et_heap (et_set_left a v t) x) = et_size (et_heap t x)"
  "et_size (et_heap (et_set_right a v t) x) = et_size (et_heap t x)"
  "et_size (et_heap (et_set_parent a v t) x) = et_size (et_heap t x)"
  "et_size (et_heap (et_set_size a w t) x) = (if x = a then w else et_size (et_heap t x))"
  "et_size (et_heap (et_set_energy a w t) x) = et_size (et_heap t x)"
  "et_size (et_heap (et_set_root r t) x) = et_size (et_heap t x)"
  "et_size (et_heap (t\<lparr>rebuild_buffer := b\<rparr>) x) = et_size (et_heap t x)"
  "et_size (et_heap (make_leaf a t) x) = (if x = a then 1 else et_size (et_heap t x))"
  by (simp_all add: et_set_left_def et_set_right_def et_set_parent_def et_set_size_def
      et_set_energy_def et_set_root_def make_leaf_def)

lemma et_energy_set [simp]:
  "et_energy (et_heap (et_set_left a v t) x) = et_energy (et_heap t x)"
  "et_energy (et_heap (et_set_right a v t) x) = et_energy (et_heap t x)"
  "et_energy (et_heap (et_set_parent a v t) x) = et_energy (et_heap t x)"
  "et_energy (et_heap (et_set_size a w t) x) = et_energy (et_heap t x)"
  "et_energy (et_heap (et_set_energy a w t) x) = (if x = a then w else et_energy (et_heap t x))"
  "et_energy (et_heap (et_set_root r t) x) = et_energy (et_heap t x)"
  "et_energy (et_heap (t\<lparr>rebuild_buffer := b\<rparr>) x) = et_energy (et_heap t x)"
  "et_energy (et_heap (make_leaf a t) x) = (if x = a then 0 else et_energy (et_heap t x))"
  by (simp_all add: et_set_left_def et_set_right_def et_set_parent_def et_set_size_def
      et_set_energy_def et_set_root_def make_leaf_def)

lemma et_key_set [simp]:
  "et_key (et_heap (et_set_left a v t) x) = et_key (et_heap t x)"
  "et_key (et_heap (et_set_right a v t) x) = et_key (et_heap t x)"
  "et_key (et_heap (et_set_parent a v t) x) = et_key (et_heap t x)"
  "et_key (et_heap (et_set_size a w t) x) = et_key (et_heap t x)"
  "et_key (et_heap (et_set_energy a w t) x) = et_key (et_heap t x)"
  "et_key (et_heap (et_set_root r t) x) = et_key (et_heap t x)"
  "et_key (et_heap (t\<lparr>rebuild_buffer := b\<rparr>) x) = et_key (et_heap t x)"
  "et_key (et_heap (make_leaf a t) x) = et_key (et_heap t x)"
  by (simp_all add: et_set_left_def et_set_right_def et_set_parent_def et_set_size_def
      et_set_energy_def et_set_root_def make_leaf_def)

subsection \<open>Operations that leave every colour field alone\<close>












section \<open>Claims about the Red-Black tree\<close>




text \<open>
  C10: \<open>upper_bound(k)\<close> should return the smallest linked element greater than \<open>k\<close>.
  When the descent hits a node equal to \<open>k\<close> the code returns that node's right child
  without descending to the leftmost node below it. In the tree built by inserting
  5, 3, 10, 7 the iteration visits 3, 5, 7, 10, and \<open>upper_bound(5)\<close> is the node 10,
  not the node 7.
\<close>

theorem upper_bound_returns_right_child:
  "Option.bind (rbt_run True [Insert 5, Insert 3, Insert 10, Insert 7]
       (rbtree_new (keyed_nodes int))) rbt_iterate = Some [3, 5, 7, 10]
   \<and> Option.bind (rbt_run True [Insert 5, Insert 3, Insert 10, Insert 7]
       (rbtree_new (keyed_nodes int))) (upper_bound 5) = Some (Some 10)"
  by code_simp

text \<open>
  C5: with \<open>MULTIPLE\<close> disabled, inserting a node whose key compares equal to a linked
  node is a no-op that leaves the linked nodes and the structure unchanged. The descent of
  \<open>insert_leaf_base\<close> only compares with "less", goes left at an equal node, and the test
  for equality (followed by \<open>if (!Node::_rbt_multiple) return\<close>) is made once, against
  the last node of the descent. In the tree holding the nodes 1 (key 5) and 2 (key 3),
  node 3 (key 5) compares equal to the linked node 1, and \<open>insert\<close> links it: the
  iteration visits 2, 1 before the call and 2, 3, 1 after it.
\<close>

definition dup_keys :: "addr \<Rightarrow> int" where
  "dup_keys a = (if a = 2 then 3 else 5)"

definition linked_before_after ::
  "bool \<Rightarrow> addr \<Rightarrow> ('k::linorder) rbtree \<Rightarrow> (addr list option \<times> addr list option) option" where
  "linked_before_after multiple m t =
     map_option (\<lambda>t'. (rbt_iterate t, rbt_iterate t')) (rbt_insert multiple m t)"

theorem insert_links_duplicate_key:
  "dup_keys 3 = dup_keys 1 \<and>
   Option.bind (rbt_run False [Insert 1, Insert 2] (rbtree_new (keyed_nodes dup_keys)))
     (linked_before_after False 3) = Some (Some [2, 1], Some [2, 3, 1])"
  by code_simp

text \<open>
  C7, as the spec states it: after three left-biased inserts of equal keys, forward
  iteration yields the nodes in insertion order, and the new node is spliced into the
  chain before the equal parent. On the code the iteration follows the tree links only,
  and a left-biased insert makes the new node the in-order predecessor of its equal
  parent: inserting the nodes 1, 2, 3 (all with key 5) gives the iteration 3, 2, 1.
\<close>

definition all_five :: "addr \<Rightarrow> int" where
  "all_five a = 5"

theorem iteration_order_counterexample:
  "Option.bind (rbt_run True [Insert 1, Insert 2, Insert 3] (rbtree_new (keyed_nodes all_five)))
     rbt_iterate = Some [3, 2, 1]"
  by code_simp

definition chain_links :: "'k rbtree \<Rightarrow> addr \<Rightarrow> addr option \<times> addr option" where
  "chain_links t a = (rbt_prev (heap t a), rbt_next (heap t a))"

definition tree_links ::
  "'k rbtree \<Rightarrow> addr \<Rightarrow> addr option \<times> addr option \<times> addr option \<times> color" where
  "tree_links t a =
     (rbt_left (heap t a), rbt_right (heap t a), rbt_parent (heap t a), rbt_color (heap t a))"

lemma insert_first_equal:
  "\<exists>t'. rbt_insert True a (rbtree_new h) = Some t' \<and> root t' = Some a
     \<and> tree_links t' a = (None, None, None, BLACK) \<and> chain_links t' a = (None, None)
     \<and> (\<forall>x. key (heap t' x) = key (h x))"
  by (simp add: rbt_insert_def insert_leaf_def insert_leaf_base_def rbtree_new_def
      insert_descend.simps equality_list_insert_after_def tree_links_def chain_links_def)

lemma insert_second_equal:
  assumes "a \<noteq> b" "key (heap t a) = key (heap t b)" "root t = Some a"
    "tree_links t a = (None, None, None, BLACK)" "chain_links t a = (None, None)"
  shows "\<exists>t'. rbt_insert True b t = Some t' \<and> root t' = Some a
     \<and> tree_links t' a = (Some b, None, None, BLACK) \<and> chain_links t' a = (None, Some b)
     \<and> tree_links t' b = (None, None, Some a, RED) \<and> chain_links t' b = (Some a, None)
     \<and> (\<forall>x. key (heap t' x) = key (heap t x))"
  using assms
  by (simp add: rbt_insert_def insert_leaf_def insert_leaf_base_def insert_descend.simps
      equality_list_insert_after_def equality_list_insert_before_def fixup_after_insert_def
      fixup_insert_loop.simps Let_def tree_links_def chain_links_def)

lemma insert_third_equal:
  assumes "a \<noteq> b" "a \<noteq> c" "b \<noteq> c"
    "key (heap t a) = key (heap t c)" "key (heap t b) = key (heap t c)" "root t = Some a"
    "tree_links t a = (Some b, None, None, BLACK)" "chain_links t a = (None, Some b)"
    "tree_links t b = (None, None, Some a, RED)" "chain_links t b = (Some a, None)"
  shows "\<exists>t'. rbt_insert True c t = Some t' \<and> root t' = Some b
     \<and> tree_links t' a = (None, None, Some b, RED) \<and> chain_links t' a = (None, Some b)
     \<and> tree_links t' b = (Some c, Some a, None, BLACK) \<and> chain_links t' b = (Some a, Some c)
     \<and> tree_links t' c = (None, None, Some b, RED) \<and> chain_links t' c = (Some b, None)
     \<and> (\<forall>x. key (heap t' x) = key (heap t x))"
  using assms
  by (simp add: rbt_insert_def insert_leaf_def insert_leaf_base_def insert_descend.simps
      equality_list_insert_after_def equality_list_insert_before_def fixup_after_insert_def
      fixup_insert_loop.simps get_uncle_def rotate_right_def Let_def tree_links_def
      chain_links_def)

lemma three_equal_observations:
  assumes "a \<noteq> b" "a \<noteq> c" "b \<noteq> c" "root t = Some b"
    "tree_links t a = (None, None, Some b, RED)" "chain_links t a = (None, Some b)"
    "tree_links t b = (Some c, Some a, None, BLACK)" "chain_links t b = (Some a, Some c)"
    "tree_links t c = (None, None, Some b, RED)" "chain_links t c = (Some b, None)"
    "key (heap t a) = k" "key (heap t b) = k" "key (heap t c) = k"
  shows "rbt_find True k t = Some (Some a) \<and> rbt_iterate t = Some [c, b, a]"
  using assms
  by (simp add: rbt_find_def find_loop.simps equality_list_find_first_def
      find_first_loop.simps rbt_iterate_def rbt_begin_def get_smallest_def descend_left.simps
      iterate_from.simps step_forward_def skip_visited_right.simps tree_links_def
      chain_links_def)

lemma equality_list_insert_before_splice:
  assumes "node \<noteq> p" "rbt_next (heap s p) \<noteq> Some node"
  shows "chain_links (equality_list_insert_before True node (Some p) s) node
           = (Some p, rbt_next (heap s p))
       \<and> rbt_next (heap (equality_list_insert_before True node (Some p) s) p) = Some node"
  using assms
  by (simp add: equality_list_insert_before_def Let_def chain_links_def split: option.splits)

text \<open>
  C7, amended: with \<open>MULTIPLE\<close> enabled, after inserting three distinct nodes \<open>a\<close>, \<open>b\<close>,
  \<open>c\<close> with mutually equal keys \<open>k\<close> via left-biased insert into an empty tree,
  \<open>find(k)\<close> returns the head \<open>a\<close> of the three-element equality chain \<open>a, b, c\<close>
  (linked through \<open>next\<close>, and back through \<open>prev\<close>), and forward in-order iteration
  yields the three nodes in reverse insertion order \<open>c, b, a\<close>. The chain splice of a
  left-biased insert at an equal position, \<open>equality_list_insert_before(node, parent)\<close>,
  puts the new node directly after the equal parent in the chain: the parent becomes the
  node's \<open>prev\<close>, the node the parent's \<open>next\<close>, and the node takes over the parent's
  old \<open>next\<close>.
\<close>

theorem three_equal_keys_left_biased:
  assumes "a \<noteq> b" "a \<noteq> c" "b \<noteq> c" "key (h a) = k" "key (h b) = k" "key (h c) = k"
    and "node \<noteq> p" "rbt_next (heap s p) \<noteq> Some node"
  shows "(\<exists>t. rbt_run True [Insert a, Insert b, Insert c] (rbtree_new h) = Some t
           \<and> rbt_find True k t = Some (Some a)
           \<and> chain_links t a = (None, Some b)
           \<and> chain_links t b = (Some a, Some c)
           \<and> chain_links t c = (Some b, None)
           \<and> rbt_iterate t = Some [c, b, a])
       \<and> chain_links (equality_list_insert_before True node (Some p) s) node
            = (Some p, rbt_next (heap s p))
       \<and> rbt_next (heap (equality_list_insert_before True node (Some p) s) p) = Some node"
proof -
  obtain t1 where t1: "rbt_insert True a (rbtree_new h) = Some t1" "root t1 = Some a"
      "tree_links t1 a = (None, None, None, BLACK)" "chain_links t1 a = (None, None)"
      "\<forall>x. key (heap t1 x) = key (h x)"
    using insert_first_equal[of a h] by blast
  have k1: "key (heap t1 a) = key (heap t1 b)"
    using t1(5) assms(4,5) by simp
  obtain t2 where t2: "rbt_insert True b t1 = Some t2" "root t2 = Some a"
      "tree_links t2 a = (Some b, None, None, BLACK)" "chain_links t2 a = (None, Some b)"
      "tree_links t2 b = (None, None, Some a, RED)" "chain_links t2 b = (Some a, None)"
      "\<forall>x. key (heap t2 x) = key (heap t1 x)"
    using insert_second_equal[OF assms(1) k1 t1(2) t1(3) t1(4)] by blast
  have k2: "key (heap t2 a) = key (heap t2 c)" "key (heap t2 b) = key (heap t2 c)"
    using t2(7) t1(5) assms(4,5,6) by simp_all
  obtain t3 where t3: "rbt_insert True c t2 = Some t3" "root t3 = Some b"
      "tree_links t3 a = (None, None, Some b, RED)" "chain_links t3 a = (None, Some b)"
      "tree_links t3 b = (Some c, Some a, None, BLACK)" "chain_links t3 b = (Some a, Some c)"
      "tree_links t3 c = (None, None, Some b, RED)" "chain_links t3 c = (Some b, None)"
      "\<forall>x. key (heap t3 x) = key (heap t2 x)"
    using insert_third_equal[OF assms(1,2,3) k2 t2(2) t2(3) t2(4) t2(5) t2(6)] by blast
  have k3: "key (heap t3 a) = k" "key (heap t3 b) = k" "key (heap t3 c) = k"
    using t3(9) t2(7) t1(5) assms(4,5,6) by simp_all
  have run: "rbt_run True [Insert a, Insert b, Insert c] (rbtree_new h) = Some t3"
    by (simp add: t1(1) t2(1) t3(1))
  have obs: "rbt_find True k t3 = Some (Some a) \<and> rbt_iterate t3 = Some [c, b, a]"
    by (rule three_equal_observations[OF assms(1,2,3) t3(2) t3(3) t3(4) t3(5) t3(6) t3(7) t3(8) k3])
  show ?thesis
    using run obs t3(4,6,8) equality_list_insert_before_splice[OF assms(7,8)] by blast
qed

theorem three_equal_keys_left_biased_witness:
  "key (keyed_nodes all_five 1) = 5 \<and> key (keyed_nodes all_five 2) = 5
   \<and> key (keyed_nodes all_five 3) = 5
   \<and> rbt_next (heap (rbtree_new (keyed_nodes all_five)) 1) \<noteq> Some 2
   \<and> (\<exists>t. rbt_run True [Insert 1, Insert 2, Insert 3] (rbtree_new (keyed_nodes all_five)) = Some t
      \<and> rbt_find True 5 t = Some (Some 1)
      \<and> chain_links t 1 = (None, Some 2)
      \<and> chain_links t 2 = (Some 1, Some 3)
      \<and> chain_links t 3 = (Some 2, None)
      \<and> rbt_iterate t = Some [3, 2, 1])
   \<and> chain_links (equality_list_insert_before True 2 (Some 1)
        (rbtree_new (keyed_nodes all_five))) 2 = (Some 1, None)"
  using three_equal_keys_left_biased[of 1 2 3 "keyed_nodes all_five" 5 2 1
      "rbtree_new (keyed_nodes all_five)"]
  by (simp add: keyed_nodes_def all_five_def rbtree_new_def)

text \<open>
  C8, as the spec states it: for every linked node used as hint, the in-order traversal
  is still non-decreasing after \<open>insert(node, hint)\<close>. The walk upwards only compares
  with the parent of the current node and the descent then stays inside the subtree it
  stopped at. In the tree with the keys 10, 5, 15 (root 10), inserting key 20 with the
  node 5 as hint stops the walk at once (20 is not smaller than 10) and links 20 below 5:
  the iteration yields the keys 5, 20, 10, 15.
\<close>

theorem hinted_insert_counterexample:
  "Option.bind (rbt_run True [Insert 10, Insert 5, Insert 15] (rbtree_new (keyed_nodes int)))
     rbt_keys = Some [5, 10, 15]
   \<and> Option.bind (Option.bind
       (rbt_run True [Insert 10, Insert 5, Insert 15] (rbtree_new (keyed_nodes int)))
       (rbt_insert_hint True 20 5)) rbt_keys = Some [5, 20, 10, 15]"
  by code_simp

section \<open>Claims about the Energy tree\<close>

subsection \<open>Evaluating the operations on described states\<close>

text \<open>
  The scenarios below are evaluated one operation at a time. A state is described by its
  root, its buffer and the links and counters of the nodes that were inserted; every
  step lemma holds for all states that fit the description. The congruence rules make the
  simplifier evaluate a sequence of statements in program order.
\<close>

definition et_links ::
  "'k etree \<Rightarrow> addr \<Rightarrow> addr option \<times> addr option \<times> addr option \<times> 64 word \<times> 64 word" where
  "et_links t a = (et_left (et_heap t a), et_right (et_heap t a), et_parent (et_heap t a),
      et_size (et_heap t a), et_energy (et_heap t a))"

lemma bind_weak_cong: "m = m' \<Longrightarrow> Option.bind m f = Option.bind m' f"
  by simp

lemma let_weak_cong: "a = b \<Longrightarrow> Let a f = Let b f"
  by simp

lemma replicate_num: "replicate (numeral k) x = x # replicate (pred_numeral k) x"
  by (simp add: numeral_eq_Suc)

lemma ctz_bits_num:
  "ctz_bits (numeral k) n = (if odd n then 0 else 1 + ctz_bits (pred_numeral k) (n div 2))"
  by (simp add: numeral_eq_Suc)

lemma to_double_small: "n < 9007199254740992 \<Longrightarrow> to_double n = n"
  by (simp add: to_double_def dbl_shift.simps)

lemmas et_eval_loops = dbg_verify_def dbg_verify_sizes_def
  dbg_verify_sizes_from.simps dbg_walk_from.simps to_double_small et_get_smallest_def et_descend_left.simps et_descend_right.simps
  et_skip_visited.simps et_step_forward_def et_size_ok_def et_child_size_def et_overcharged_def
  et_insert_loop.simps et_remove_up.simps et_remove_down.simps dbg_assert_def
  et_links_def Let_def

lemmas et_eval_rebuild = rebuild_below_def
  ceil_log2.simps builtin_ctz_def shl1_def buf_get_def buf_set_def buf_node_def buf_resize_def
  rebuild_fill.simps link_bottom_pairs.simps reset_second_level.simps link_level.simps
  climb_levels.simps replicate_num ctz_bits_num

lemma et_run_append:
  "et_run debug (xs @ ys) t = Option.bind (et_run debug xs t) (et_run debug ys)"
  by (induction xs arbitrary: t) (simp_all cong: Option.bind_cong)

subsection \<open>Removing an inner node\<close>

text \<open>
  Insert the keys 12, 13, 14 (the third insert rebuilds the three nodes into the tree
  with root 13), then remove the root 13.
\<close>

lemma et_inner_remove_step1:
  assumes "et_root t = None"
    "rebuild_buffer t = []"
    "(\<forall>x. et_key (et_heap t x) = int x)"
  shows "\<exists>t'. et_insert True 12 t = Some t' \<and> et_root t' = Some 12
    \<and> rebuild_buffer t' = []
    \<and> et_links t' 12 = (None, None, None, 1, 0)
    \<and> (\<forall>x. et_key (et_heap t' x) = int x)"
  using assms unfolding et_insert_def
  apply (simp add: et_eval_loops cong: bind_weak_cong let_weak_cong prod.case_cong_weak)
  apply (simp_all add: et_eval_loops et_eval_rebuild cong: bind_weak_cong let_weak_cong prod.case_cong_weak)?
  done

lemma et_inner_remove_step2:
  assumes "et_root t = Some 12"
    "rebuild_buffer t = []"
    "et_links t 12 = (None, None, None, 1, 0)"
    "(\<forall>x. et_key (et_heap t x) = int x)"
  shows "\<exists>t'. et_insert True 13 t = Some t' \<and> et_root t' = Some 12
    \<and> rebuild_buffer t' = []
    \<and> et_links t' 12 = (None, Some 13, None, 2, 1)
    \<and> et_links t' 13 = (None, None, Some 12, 1, 0)
    \<and> (\<forall>x. et_key (et_heap t' x) = int x)"
  using assms unfolding et_insert_def
  apply (simp add: et_eval_loops cong: bind_weak_cong let_weak_cong prod.case_cong_weak)
  apply (simp_all add: et_eval_loops et_eval_rebuild cong: bind_weak_cong let_weak_cong prod.case_cong_weak)?
  done

lemma et_inner_remove_step3:
  assumes "et_root t = Some 12"
    "rebuild_buffer t = []"
    "et_links t 12 = (None, Some 13, None, 2, 1)"
    "et_links t 13 = (None, None, Some 12, 1, 0)"
    "(\<forall>x. et_key (et_heap t x) = int x)"
  shows "\<exists>t'. et_insert True 14 t = Some t' \<and> et_root t' = Some 13
    \<and> rebuild_buffer t' = [Some 12, Some 14, Some 13]
    \<and> et_links t' 12 = (None, None, Some 13, 1, 0)
    \<and> et_links t' 13 = (Some 12, Some 14, None, 3, 0)
    \<and> et_links t' 14 = (None, None, Some 13, 1, 0)
    \<and> (\<forall>x. et_key (et_heap t' x) = int x)"
  using assms unfolding et_insert_def
  apply (simp add: et_eval_loops cong: bind_weak_cong let_weak_cong prod.case_cong_weak)
  apply (simp_all add: et_eval_loops et_eval_rebuild cong: bind_weak_cong let_weak_cong prod.case_cong_weak)?
  done

lemma et_inner_remove_step4:
  assumes "et_root t = Some 13"
    "rebuild_buffer t = [Some 12, Some 14, Some 13]"
    "et_links t 12 = (None, None, Some 13, 1, 0)"
    "et_links t 13 = (Some 12, Some 14, None, 3, 0)"
    "et_links t 14 = (None, None, Some 13, 1, 0)"
    "(\<forall>x. et_key (et_heap t x) = int x)"
  shows "\<exists>t'. et_remove True 13 t = Some t' \<and> et_root t' = Some 12
    \<and> rebuild_buffer t' = [Some 12, Some 14, Some 13]
    \<and> et_links t' 12 = (Some 12, Some 14, None, 2, 1)
    \<and> et_links t' 13 = (Some 12, Some 14, None, 3, 0)
    \<and> et_links t' 14 = (None, None, Some 13, 1, 0)
    \<and> (\<forall>x. et_key (et_heap t' x) = int x)"
  using assms unfolding et_remove_def
  apply (simp add: et_eval_loops cong: bind_weak_cong let_weak_cong prod.case_cong_weak)
  apply (simp_all add: et_eval_loops et_eval_rebuild cong: bind_weak_cong let_weak_cong prod.case_cong_weak)?
  done

lemma et_inner_remove_run:
  "\<exists>t. et_run True [Insert 12, Insert 13, Insert 14, Remove 13] (etree_new (et_keyed_nodes int)) = Some t
    \<and> et_root t = Some 12
    \<and> rebuild_buffer t = [Some 12, Some 14, Some 13]
    \<and> et_links t 12 = (Some 12, Some 14, None, 2, 1)
    \<and> et_links t 13 = (Some 12, Some 14, None, 3, 0)
    \<and> et_links t 14 = (None, None, Some 13, 1, 0)"
proof -
  let ?t0 = "etree_new (et_keyed_nodes int)"
  have s0: "et_root ?t0 = None" "rebuild_buffer ?t0 = []" "\<forall>x. et_key (et_heap ?t0 x) = int x"
    by (simp_all add: etree_new_def et_keyed_nodes_def)
  obtain t1 where s1: "et_insert True 12 ?t0 = Some t1"
    "et_root t1 = Some 12"
    "rebuild_buffer t1 = []"
    "et_links t1 12 = (None, None, None, 1, 0)"
    "(\<forall>x. et_key (et_heap t1 x) = int x)"
    using et_inner_remove_step1[OF s0] by blast
  obtain t2 where s2: "et_insert True 13 t1 = Some t2"
    "et_root t2 = Some 12"
    "rebuild_buffer t2 = []"
    "et_links t2 12 = (None, Some 13, None, 2, 1)"
    "et_links t2 13 = (None, None, Some 12, 1, 0)"
    "(\<forall>x. et_key (et_heap t2 x) = int x)"
    using et_inner_remove_step2[OF s1(2-)] by blast
  obtain t3 where s3: "et_insert True 14 t2 = Some t3"
    "et_root t3 = Some 13"
    "rebuild_buffer t3 = [Some 12, Some 14, Some 13]"
    "et_links t3 12 = (None, None, Some 13, 1, 0)"
    "et_links t3 13 = (Some 12, Some 14, None, 3, 0)"
    "et_links t3 14 = (None, None, Some 13, 1, 0)"
    "(\<forall>x. et_key (et_heap t3 x) = int x)"
    using et_inner_remove_step3[OF s2(2-)] by blast
  obtain t4 where s4: "et_remove True 13 t3 = Some t4"
    "et_root t4 = Some 12"
    "rebuild_buffer t4 = [Some 12, Some 14, Some 13]"
    "et_links t4 12 = (Some 12, Some 14, None, 2, 1)"
    "et_links t4 13 = (Some 12, Some 14, None, 3, 0)"
    "et_links t4 14 = (None, None, Some 13, 1, 0)"
    "(\<forall>x. et_key (et_heap t4 x) = int x)"
    using et_inner_remove_step4[OF s3(2-)] by blast
  show ?thesis
    using s4(2-) by (simp add: s1(1) s2(1) s3(1) s4(1))
qed


text \<open>
  C2: after every public operation each linked node satisfies
  \<open>size = 1 + size(left) + size(right)\<close> (and the energy bound). \<open>remove\<close> of a node with
  children moves the replacement \<open>child\<close> into the removed node's place by copying the
  removed node's child links, without unlinking \<open>child\<close> from its old parent when it has
  no subtree of its own and without redirecting the children's parent links. After
  inserting 12, 13, 14 and removing 13 the operation has returned, the root is node 12,
  its left link points to node 12 itself, and the size equation fails at the root.
\<close>

theorem et_remove_breaks_size_equation:
  "\<exists>t. et_run True [Insert 12, Insert 13, Insert 14, Remove 13] (etree_new (et_keyed_nodes int))
         = Some t
       \<and> et_root t = Some 12
       \<and> et_left (et_heap t 12) = Some 12
       \<and> et_parent (et_heap t 14) = Some 13
       \<and> \<not> et_size_ok (et_heap t) 12"
proof -
  obtain t where t:
    "et_run True [Insert 12, Insert 13, Insert 14, Remove 13] (etree_new (et_keyed_nodes int))
       = Some t"
    "et_root t = Some 12"
    "et_links t 12 = (Some 12, Some 14, None, 2, 1)"
    "et_links t 14 = (None, None, Some 13, 1, 0)"
    using et_inner_remove_run by blast
  have "et_left (et_heap t 12) = Some 12" "et_parent (et_heap t 14) = Some 13"
       "\<not> et_size_ok (et_heap t) 12"
    using t(3,4) by (simp_all add: et_links_def et_size_ok_def et_child_size_def)
  with t(1,2) show ?thesis by blast
qed

subsection \<open>Rebuilding a subtree of four nodes\<close>

text \<open>
  Insert the keys 12, 11, 13, 14, 10 and remove 10: the removal leaves the root with
  size 4 and energy 3, so the root is rebuilt. Once with the checks compiled in, once
  without.
\<close>

lemma et_rebuild4_dbg_step1:
  assumes "et_root t = None"
    "rebuild_buffer t = []"
    "(\<forall>x. et_key (et_heap t x) = int x)"
  shows "\<exists>t'. et_insert True 12 t = Some t' \<and> et_root t' = Some 12
    \<and> rebuild_buffer t' = []
    \<and> et_links t' 12 = (None, None, None, 1, 0)
    \<and> (\<forall>x. et_key (et_heap t' x) = int x)"
  using assms unfolding et_insert_def
  apply (simp add: et_eval_loops cong: bind_weak_cong let_weak_cong prod.case_cong_weak)
  apply (simp_all add: et_eval_loops et_eval_rebuild cong: bind_weak_cong let_weak_cong prod.case_cong_weak)?
  done

lemma et_rebuild4_dbg_step2:
  assumes "et_root t = Some 12"
    "rebuild_buffer t = []"
    "et_links t 12 = (None, None, None, 1, 0)"
    "(\<forall>x. et_key (et_heap t x) = int x)"
  shows "\<exists>t'. et_insert True 11 t = Some t' \<and> et_root t' = Some 12
    \<and> rebuild_buffer t' = []
    \<and> et_links t' 11 = (None, None, Some 12, 1, 0)
    \<and> et_links t' 12 = (Some 11, None, None, 2, 1)
    \<and> (\<forall>x. et_key (et_heap t' x) = int x)"
  using assms unfolding et_insert_def
  apply (simp add: et_eval_loops cong: bind_weak_cong let_weak_cong prod.case_cong_weak)
  apply (simp_all add: et_eval_loops et_eval_rebuild cong: bind_weak_cong let_weak_cong prod.case_cong_weak)?
  done

lemma et_rebuild4_dbg_step3:
  assumes "et_root t = Some 12"
    "rebuild_buffer t = []"
    "et_links t 11 = (None, None, Some 12, 1, 0)"
    "et_links t 12 = (Some 11, None, None, 2, 1)"
    "(\<forall>x. et_key (et_heap t x) = int x)"
  shows "\<exists>t'. et_insert True 13 t = Some t' \<and> et_root t' = Some 12
    \<and> rebuild_buffer t' = [Some 11, Some 13, Some 12]
    \<and> et_links t' 11 = (None, None, Some 12, 1, 0)
    \<and> et_links t' 12 = (Some 11, Some 13, None, 3, 0)
    \<and> et_links t' 13 = (None, None, Some 12, 1, 0)
    \<and> (\<forall>x. et_key (et_heap t' x) = int x)"
  using assms unfolding et_insert_def
  apply (simp add: et_eval_loops cong: bind_weak_cong let_weak_cong prod.case_cong_weak)
  apply (simp_all add: et_eval_loops et_eval_rebuild cong: bind_weak_cong let_weak_cong prod.case_cong_weak)?
  done

lemma et_rebuild4_dbg_step4:
  assumes "et_root t = Some 12"
    "rebuild_buffer t = [Some 11, Some 13, Some 12]"
    "et_links t 11 = (None, None, Some 12, 1, 0)"
    "et_links t 12 = (Some 11, Some 13, None, 3, 0)"
    "et_links t 13 = (None, None, Some 12, 1, 0)"
    "(\<forall>x. et_key (et_heap t x) = int x)"
  shows "\<exists>t'. et_insert True 14 t = Some t' \<and> et_root t' = Some 12
    \<and> rebuild_buffer t' = [Some 11, Some 13, Some 12]
    \<and> et_links t' 11 = (None, None, Some 12, 1, 0)
    \<and> et_links t' 12 = (Some 11, Some 13, None, 4, 1)
    \<and> et_links t' 13 = (None, Some 14, Some 12, 2, 1)
    \<and> et_links t' 14 = (None, None, Some 13, 1, 0)
    \<and> (\<forall>x. et_key (et_heap t' x) = int x)"
  using assms unfolding et_insert_def
  apply (simp add: et_eval_loops cong: bind_weak_cong let_weak_cong prod.case_cong_weak)
  apply (simp_all add: et_eval_loops et_eval_rebuild cong: bind_weak_cong let_weak_cong prod.case_cong_weak)?
  done

lemma et_rebuild4_dbg_step5:
  assumes "et_root t = Some 12"
    "rebuild_buffer t = [Some 11, Some 13, Some 12]"
    "et_links t 11 = (None, None, Some 12, 1, 0)"
    "et_links t 12 = (Some 11, Some 13, None, 4, 1)"
    "et_links t 13 = (None, Some 14, Some 12, 2, 1)"
    "et_links t 14 = (None, None, Some 13, 1, 0)"
    "(\<forall>x. et_key (et_heap t x) = int x)"
  shows "\<exists>t'. et_insert True 10 t = Some t' \<and> et_root t' = Some 12
    \<and> rebuild_buffer t' = [Some 11, Some 13, Some 12]
    \<and> et_links t' 10 = (None, None, Some 11, 1, 0)
    \<and> et_links t' 11 = (Some 10, None, Some 12, 2, 1)
    \<and> et_links t' 12 = (Some 11, Some 13, None, 5, 2)
    \<and> et_links t' 13 = (None, Some 14, Some 12, 2, 1)
    \<and> et_links t' 14 = (None, None, Some 13, 1, 0)
    \<and> (\<forall>x. et_key (et_heap t' x) = int x)"
  using assms unfolding et_insert_def
  apply (simp add: et_eval_loops cong: bind_weak_cong let_weak_cong prod.case_cong_weak)
  apply (simp_all add: et_eval_loops et_eval_rebuild cong: bind_weak_cong let_weak_cong prod.case_cong_weak)?
  done

lemma et_rebuild4_dbg_step6:
  assumes "et_root t = Some 12"
    "rebuild_buffer t = [Some 11, Some 13, Some 12]"
    "et_links t 10 = (None, None, Some 11, 1, 0)"
    "et_links t 11 = (Some 10, None, Some 12, 2, 1)"
    "et_links t 12 = (Some 11, Some 13, None, 5, 2)"
    "et_links t 13 = (None, Some 14, Some 12, 2, 1)"
    "et_links t 14 = (None, None, Some 13, 1, 0)"
    "(\<forall>x. et_key (et_heap t x) = int x)"
  shows "et_remove True 10 t = None"
  using assms unfolding et_remove_def
  apply (simp add: et_eval_loops cong: bind_weak_cong let_weak_cong prod.case_cong_weak)
  apply (simp_all add: et_eval_loops et_eval_rebuild cong: bind_weak_cong let_weak_cong prod.case_cong_weak)?
  done

lemma et_rebuild4_dbg_run:
  "et_run True [Insert 12, Insert 11, Insert 13, Insert 14, Insert 10, Remove 10] (etree_new (et_keyed_nodes int)) = None"
proof -
  let ?t0 = "etree_new (et_keyed_nodes int)"
  have s0: "et_root ?t0 = None" "rebuild_buffer ?t0 = []" "\<forall>x. et_key (et_heap ?t0 x) = int x"
    by (simp_all add: etree_new_def et_keyed_nodes_def)
  obtain t1 where s1: "et_insert True 12 ?t0 = Some t1"
    "et_root t1 = Some 12"
    "rebuild_buffer t1 = []"
    "et_links t1 12 = (None, None, None, 1, 0)"
    "(\<forall>x. et_key (et_heap t1 x) = int x)"
    using et_rebuild4_dbg_step1[OF s0] by blast
  obtain t2 where s2: "et_insert True 11 t1 = Some t2"
    "et_root t2 = Some 12"
    "rebuild_buffer t2 = []"
    "et_links t2 11 = (None, None, Some 12, 1, 0)"
    "et_links t2 12 = (Some 11, None, None, 2, 1)"
    "(\<forall>x. et_key (et_heap t2 x) = int x)"
    using et_rebuild4_dbg_step2[OF s1(2-)] by blast
  obtain t3 where s3: "et_insert True 13 t2 = Some t3"
    "et_root t3 = Some 12"
    "rebuild_buffer t3 = [Some 11, Some 13, Some 12]"
    "et_links t3 11 = (None, None, Some 12, 1, 0)"
    "et_links t3 12 = (Some 11, Some 13, None, 3, 0)"
    "et_links t3 13 = (None, None, Some 12, 1, 0)"
    "(\<forall>x. et_key (et_heap t3 x) = int x)"
    using et_rebuild4_dbg_step3[OF s2(2-)] by blast
  obtain t4 where s4: "et_insert True 14 t3 = Some t4"
    "et_root t4 = Some 12"
    "rebuild_buffer t4 = [Some 11, Some 13, Some 12]"
    "et_links t4 11 = (None, None, Some 12, 1, 0)"
    "et_links t4 12 = (Some 11, Some 13, None, 4, 1)"
    "et_links t4 13 = (None, Some 14, Some 12, 2, 1)"
    "et_links t4 14 = (None, None, Some 13, 1, 0)"
    "(\<forall>x. et_key (et_heap t4 x) = int x)"
    using et_rebuild4_dbg_step4[OF s3(2-)] by blast
  obtain t5 where s5: "et_insert True 10 t4 = Some t5"
    "et_root t5 = Some 12"
    "rebuild_buffer t5 = [Some 11, Some 13, Some 12]"
    "et_links t5 10 = (None, None, Some 11, 1, 0)"
    "et_links t5 11 = (Some 10, None, Some 12, 2, 1)"
    "et_links t5 12 = (Some 11, Some 13, None, 5, 2)"
    "et_links t5 13 = (None, Some 14, Some 12, 2, 1)"
    "et_links t5 14 = (None, None, Some 13, 1, 0)"
    "(\<forall>x. et_key (et_heap t5 x) = int x)"
    using et_rebuild4_dbg_step5[OF s4(2-)] by blast
  have s6: "et_remove True 10 t5 = None"
    by (rule et_rebuild4_dbg_step6[OF s5(2-)])
  show ?thesis
    by (simp add: s1(1) s2(1) s3(1) s4(1) s5(1) s6)
qed


lemma et_rebuild4_step1:
  assumes "et_root t = None"
    "rebuild_buffer t = []"
    "(\<forall>x. et_key (et_heap t x) = int x)"
  shows "\<exists>t'. et_insert False 12 t = Some t' \<and> et_root t' = Some 12
    \<and> rebuild_buffer t' = []
    \<and> et_links t' 12 = (None, None, None, 1, 0)
    \<and> (\<forall>x. et_key (et_heap t' x) = int x)"
  using assms unfolding et_insert_def
  apply (simp add: et_eval_loops cong: bind_weak_cong let_weak_cong prod.case_cong_weak)
  apply (simp_all add: et_eval_loops et_eval_rebuild cong: bind_weak_cong let_weak_cong prod.case_cong_weak)?
  done

lemma et_rebuild4_step2:
  assumes "et_root t = Some 12"
    "rebuild_buffer t = []"
    "et_links t 12 = (None, None, None, 1, 0)"
    "(\<forall>x. et_key (et_heap t x) = int x)"
  shows "\<exists>t'. et_insert False 11 t = Some t' \<and> et_root t' = Some 12
    \<and> rebuild_buffer t' = []
    \<and> et_links t' 11 = (None, None, Some 12, 1, 0)
    \<and> et_links t' 12 = (Some 11, None, None, 2, 1)
    \<and> (\<forall>x. et_key (et_heap t' x) = int x)"
  using assms unfolding et_insert_def
  apply (simp add: et_eval_loops cong: bind_weak_cong let_weak_cong prod.case_cong_weak)
  apply (simp_all add: et_eval_loops et_eval_rebuild cong: bind_weak_cong let_weak_cong prod.case_cong_weak)?
  done

lemma et_rebuild4_step3:
  assumes "et_root t = Some 12"
    "rebuild_buffer t = []"
    "et_links t 11 = (None, None, Some 12, 1, 0)"
    "et_links t 12 = (Some 11, None, None, 2, 1)"
    "(\<forall>x. et_key (et_heap t x) = int x)"
  shows "\<exists>t'. et_insert False 13 t = Some t' \<and> et_root t' = Some 12
    \<and> rebuild_buffer t' = [Some 11, Some 13, Some 12]
    \<and> et_links t' 11 = (None, None, Some 12, 1, 0)
    \<and> et_links t' 12 = (Some 11, Some 13, None, 3, 0)
    \<and> et_links t' 13 = (None, None, Some 12, 1, 0)
    \<and> (\<forall>x. et_key (et_heap t' x) = int x)"
  using assms unfolding et_insert_def
  apply (simp add: et_eval_loops cong: bind_weak_cong let_weak_cong prod.case_cong_weak)
  apply (simp_all add: et_eval_loops et_eval_rebuild cong: bind_weak_cong let_weak_cong prod.case_cong_weak)?
  done

lemma et_rebuild4_step4:
  assumes "et_root t = Some 12"
    "rebuild_buffer t = [Some 11, Some 13, Some 12]"
    "et_links t 11 = (None, None, Some 12, 1, 0)"
    "et_links t 12 = (Some 11, Some 13, None, 3, 0)"
    "et_links t 13 = (None, None, Some 12, 1, 0)"
    "(\<forall>x. et_key (et_heap t x) = int x)"
  shows "\<exists>t'. et_insert False 14 t = Some t' \<and> et_root t' = Some 12
    \<and> rebuild_buffer t' = [Some 11, Some 13, Some 12]
    \<and> et_links t' 11 = (None, None, Some 12, 1, 0)
    \<and> et_links t' 12 = (Some 11, Some 13, None, 4, 1)
    \<and> et_links t' 13 = (None, Some 14, Some 12, 2, 1)
    \<and> et_links t' 14 = (None, None, Some 13, 1, 0)
    \<and> (\<forall>x. et_key (et_heap t' x) = int x)"
  using assms unfolding et_insert_def
  apply (simp add: et_eval_loops cong: bind_weak_cong let_weak_cong prod.case_cong_weak)
  apply (simp_all add: et_eval_loops et_eval_rebuild cong: bind_weak_cong let_weak_cong prod.case_cong_weak)?
  done

lemma et_rebuild4_step5:
  assumes "et_root t = Some 12"
    "rebuild_buffer t = [Some 11, Some 13, Some 12]"
    "et_links t 11 = (None, None, Some 12, 1, 0)"
    "et_links t 12 = (Some 11, Some 13, None, 4, 1)"
    "et_links t 13 = (None, Some 14, Some 12, 2, 1)"
    "et_links t 14 = (None, None, Some 13, 1, 0)"
    "(\<forall>x. et_key (et_heap t x) = int x)"
  shows "\<exists>t'. et_insert False 10 t = Some t' \<and> et_root t' = Some 12
    \<and> rebuild_buffer t' = [Some 11, Some 13, Some 12]
    \<and> et_links t' 10 = (None, None, Some 11, 1, 0)
    \<and> et_links t' 11 = (Some 10, None, Some 12, 2, 1)
    \<and> et_links t' 12 = (Some 11, Some 13, None, 5, 2)
    \<and> et_links t' 13 = (None, Some 14, Some 12, 2, 1)
    \<and> et_links t' 14 = (None, None, Some 13, 1, 0)
    \<and> (\<forall>x. et_key (et_heap t' x) = int x)"
  using assms unfolding et_insert_def
  apply (simp add: et_eval_loops cong: bind_weak_cong let_weak_cong prod.case_cong_weak)
  apply (simp_all add: et_eval_loops et_eval_rebuild cong: bind_weak_cong let_weak_cong prod.case_cong_weak)?
  done

lemma et_rebuild4_step6:
  assumes "et_root t = Some 12"
    "rebuild_buffer t = [Some 11, Some 13, Some 12]"
    "et_links t 10 = (None, None, Some 11, 1, 0)"
    "et_links t 11 = (Some 10, None, Some 12, 2, 1)"
    "et_links t 12 = (Some 11, Some 13, None, 5, 2)"
    "et_links t 13 = (None, Some 14, Some 12, 2, 1)"
    "et_links t 14 = (None, None, Some 13, 1, 0)"
    "(\<forall>x. et_key (et_heap t x) = int x)"
  shows "et_remove False 10 t = None"
  using assms unfolding et_remove_def
  apply (simp add: et_eval_loops cong: bind_weak_cong let_weak_cong prod.case_cong_weak)
  apply (simp_all add: et_eval_loops et_eval_rebuild cong: bind_weak_cong let_weak_cong prod.case_cong_weak)?
  done

lemma et_rebuild4_run:
  "et_run False [Insert 12, Insert 11, Insert 13, Insert 14, Insert 10, Remove 10] (etree_new (et_keyed_nodes int)) = None"
proof -
  let ?t0 = "etree_new (et_keyed_nodes int)"
  have s0: "et_root ?t0 = None" "rebuild_buffer ?t0 = []" "\<forall>x. et_key (et_heap ?t0 x) = int x"
    by (simp_all add: etree_new_def et_keyed_nodes_def)
  obtain t1 where s1: "et_insert False 12 ?t0 = Some t1"
    "et_root t1 = Some 12"
    "rebuild_buffer t1 = []"
    "et_links t1 12 = (None, None, None, 1, 0)"
    "(\<forall>x. et_key (et_heap t1 x) = int x)"
    using et_rebuild4_step1[OF s0] by blast
  obtain t2 where s2: "et_insert False 11 t1 = Some t2"
    "et_root t2 = Some 12"
    "rebuild_buffer t2 = []"
    "et_links t2 11 = (None, None, Some 12, 1, 0)"
    "et_links t2 12 = (Some 11, None, None, 2, 1)"
    "(\<forall>x. et_key (et_heap t2 x) = int x)"
    using et_rebuild4_step2[OF s1(2-)] by blast
  obtain t3 where s3: "et_insert False 13 t2 = Some t3"
    "et_root t3 = Some 12"
    "rebuild_buffer t3 = [Some 11, Some 13, Some 12]"
    "et_links t3 11 = (None, None, Some 12, 1, 0)"
    "et_links t3 12 = (Some 11, Some 13, None, 3, 0)"
    "et_links t3 13 = (None, None, Some 12, 1, 0)"
    "(\<forall>x. et_key (et_heap t3 x) = int x)"
    using et_rebuild4_step3[OF s2(2-)] by blast
  obtain t4 where s4: "et_insert False 14 t3 = Some t4"
    "et_root t4 = Some 12"
    "rebuild_buffer t4 = [Some 11, Some 13, Some 12]"
    "et_links t4 11 = (None, None, Some 12, 1, 0)"
    "et_links t4 12 = (Some 11, Some 13, None, 4, 1)"
    "et_links t4 13 = (None, Some 14, Some 12, 2, 1)"
    "et_links t4 14 = (None, None, Some 13, 1, 0)"
    "(\<forall>x. et_key (et_heap t4 x) = int x)"
    using et_rebuild4_step4[OF s3(2-)] by blast
  obtain t5 where s5: "et_insert False 10 t4 = Some t5"
    "et_root t5 = Some 12"
    "rebuild_buffer t5 = [Some 11, Some 13, Some 12]"
    "et_links t5 10 = (None, None, Some 11, 1, 0)"
    "et_links t5 11 = (Some 10, None, Some 12, 2, 1)"
    "et_links t5 12 = (Some 11, Some 13, None, 5, 2)"
    "et_links t5 13 = (None, Some 14, Some 12, 2, 1)"
    "et_links t5 14 = (None, None, Some 13, 1, 0)"
    "(\<forall>x. et_key (et_heap t5 x) = int x)"
    using et_rebuild4_step5[OF s4(2-)] by blast
  have s6: "et_remove False 10 t5 = None"
    by (rule et_rebuild4_step6[OF s5(2-)])
  show ?thesis
    by (simp add: s1(1) s2(1) s3(1) s4(1) s5(1) s6)
qed


text \<open>
  Insert the keys 11, 12, 13, 14, 15, 17, 19 (the seventh insert rebuilds all seven nodes,
  which fills the seven slots of the buffer; slot 5 holds node 17), then 18 and 16, and
  remove 16: the removal leaves node 17 with size 4 and energy 3 and rebuilds the subtree
  of the nodes 15, 17, 18, 19 over the buffer of the earlier rebuild. Once with the checks
  compiled in, once without.
\<close>

lemma et_stale_dbg_step1:
  assumes "et_root t = None"
    "rebuild_buffer t = []"
    "(\<forall>x. et_key (et_heap t x) = int x)"
  shows "\<exists>t'. et_insert True 11 t = Some t' \<and> et_root t' = Some 11
    \<and> rebuild_buffer t' = []
    \<and> et_links t' 11 = (None, None, None, 1, 0)
    \<and> (\<forall>x. et_key (et_heap t' x) = int x)"
  using assms unfolding et_insert_def
  apply (simp add: et_eval_loops cong: bind_weak_cong let_weak_cong prod.case_cong_weak)
  apply (simp_all add: et_eval_loops et_eval_rebuild cong: bind_weak_cong let_weak_cong prod.case_cong_weak)?
  done

lemma et_stale_dbg_step2:
  assumes "et_root t = Some 11"
    "rebuild_buffer t = []"
    "et_links t 11 = (None, None, None, 1, 0)"
    "(\<forall>x. et_key (et_heap t x) = int x)"
  shows "\<exists>t'. et_insert True 12 t = Some t' \<and> et_root t' = Some 11
    \<and> rebuild_buffer t' = []
    \<and> et_links t' 11 = (None, Some 12, None, 2, 1)
    \<and> et_links t' 12 = (None, None, Some 11, 1, 0)
    \<and> (\<forall>x. et_key (et_heap t' x) = int x)"
  using assms unfolding et_insert_def
  apply (simp add: et_eval_loops cong: bind_weak_cong let_weak_cong prod.case_cong_weak)
  apply (simp_all add: et_eval_loops et_eval_rebuild cong: bind_weak_cong let_weak_cong prod.case_cong_weak)?
  done

lemma et_stale_dbg_step3:
  assumes "et_root t = Some 11"
    "rebuild_buffer t = []"
    "et_links t 11 = (None, Some 12, None, 2, 1)"
    "et_links t 12 = (None, None, Some 11, 1, 0)"
    "(\<forall>x. et_key (et_heap t x) = int x)"
  shows "\<exists>t'. et_insert True 13 t = Some t' \<and> et_root t' = Some 12
    \<and> rebuild_buffer t' = [Some 11, Some 13, Some 12]
    \<and> et_links t' 11 = (None, None, Some 12, 1, 0)
    \<and> et_links t' 12 = (Some 11, Some 13, None, 3, 0)
    \<and> et_links t' 13 = (None, None, Some 12, 1, 0)
    \<and> (\<forall>x. et_key (et_heap t' x) = int x)"
  using assms unfolding et_insert_def
  apply (simp add: et_eval_loops cong: bind_weak_cong let_weak_cong prod.case_cong_weak)
  apply (simp_all add: et_eval_loops et_eval_rebuild cong: bind_weak_cong let_weak_cong prod.case_cong_weak)?
  done

lemma et_stale_dbg_step4:
  assumes "et_root t = Some 12"
    "rebuild_buffer t = [Some 11, Some 13, Some 12]"
    "et_links t 11 = (None, None, Some 12, 1, 0)"
    "et_links t 12 = (Some 11, Some 13, None, 3, 0)"
    "et_links t 13 = (None, None, Some 12, 1, 0)"
    "(\<forall>x. et_key (et_heap t x) = int x)"
  shows "\<exists>t'. et_insert True 14 t = Some t' \<and> et_root t' = Some 12
    \<and> rebuild_buffer t' = [Some 11, Some 13, Some 12]
    \<and> et_links t' 11 = (None, None, Some 12, 1, 0)
    \<and> et_links t' 12 = (Some 11, Some 13, None, 4, 1)
    \<and> et_links t' 13 = (None, Some 14, Some 12, 2, 1)
    \<and> et_links t' 14 = (None, None, Some 13, 1, 0)
    \<and> (\<forall>x. et_key (et_heap t' x) = int x)"
  using assms unfolding et_insert_def
  apply (simp add: et_eval_loops cong: bind_weak_cong let_weak_cong prod.case_cong_weak)
  apply (simp_all add: et_eval_loops et_eval_rebuild cong: bind_weak_cong let_weak_cong prod.case_cong_weak)?
  done

lemma et_stale_dbg_step5:
  assumes "et_root t = Some 12"
    "rebuild_buffer t = [Some 11, Some 13, Some 12]"
    "et_links t 11 = (None, None, Some 12, 1, 0)"
    "et_links t 12 = (Some 11, Some 13, None, 4, 1)"
    "et_links t 13 = (None, Some 14, Some 12, 2, 1)"
    "et_links t 14 = (None, None, Some 13, 1, 0)"
    "(\<forall>x. et_key (et_heap t x) = int x)"
  shows "\<exists>t'. et_insert True 15 t = Some t' \<and> et_root t' = Some 12
    \<and> rebuild_buffer t' = [Some 13, Some 15, Some 14]
    \<and> et_links t' 11 = (None, None, Some 12, 1, 0)
    \<and> et_links t' 12 = (Some 11, Some 14, None, 5, 2)
    \<and> et_links t' 13 = (None, None, Some 14, 1, 0)
    \<and> et_links t' 14 = (Some 13, Some 15, Some 12, 3, 0)
    \<and> et_links t' 15 = (None, None, Some 14, 1, 0)
    \<and> (\<forall>x. et_key (et_heap t' x) = int x)"
  using assms unfolding et_insert_def
  apply (simp add: et_eval_loops cong: bind_weak_cong let_weak_cong prod.case_cong_weak)
  apply (simp_all add: et_eval_loops et_eval_rebuild cong: bind_weak_cong let_weak_cong prod.case_cong_weak)?
  done

lemma et_stale_dbg_step6:
  assumes "et_root t = Some 12"
    "rebuild_buffer t = [Some 13, Some 15, Some 14]"
    "et_links t 11 = (None, None, Some 12, 1, 0)"
    "et_links t 12 = (Some 11, Some 14, None, 5, 2)"
    "et_links t 13 = (None, None, Some 14, 1, 0)"
    "et_links t 14 = (Some 13, Some 15, Some 12, 3, 0)"
    "et_links t 15 = (None, None, Some 14, 1, 0)"
    "(\<forall>x. et_key (et_heap t x) = int x)"
  shows "\<exists>t'. et_insert True 17 t = Some t' \<and> et_root t' = Some 12
    \<and> rebuild_buffer t' = [Some 13, Some 15, Some 14]
    \<and> et_links t' 11 = (None, None, Some 12, 1, 0)
    \<and> et_links t' 12 = (Some 11, Some 14, None, 6, 3)
    \<and> et_links t' 13 = (None, None, Some 14, 1, 0)
    \<and> et_links t' 14 = (Some 13, Some 15, Some 12, 4, 1)
    \<and> et_links t' 15 = (None, Some 17, Some 14, 2, 1)
    \<and> et_links t' 17 = (None, None, Some 15, 1, 0)
    \<and> (\<forall>x. et_key (et_heap t' x) = int x)"
  using assms unfolding et_insert_def
  apply (simp add: et_eval_loops cong: bind_weak_cong let_weak_cong prod.case_cong_weak)
  apply (simp_all add: et_eval_loops et_eval_rebuild cong: bind_weak_cong let_weak_cong prod.case_cong_weak)?
  done

lemma et_stale_dbg_step7:
  assumes "et_root t = Some 12"
    "rebuild_buffer t = [Some 13, Some 15, Some 14]"
    "et_links t 11 = (None, None, Some 12, 1, 0)"
    "et_links t 12 = (Some 11, Some 14, None, 6, 3)"
    "et_links t 13 = (None, None, Some 14, 1, 0)"
    "et_links t 14 = (Some 13, Some 15, Some 12, 4, 1)"
    "et_links t 15 = (None, Some 17, Some 14, 2, 1)"
    "et_links t 17 = (None, None, Some 15, 1, 0)"
    "(\<forall>x. et_key (et_heap t x) = int x)"
  shows "\<exists>t'. et_insert True 19 t = Some t' \<and> et_root t' = Some 14
    \<and> rebuild_buffer t' = [Some 11, Some 13, Some 15, Some 19, Some 12, Some 17, Some 14]
    \<and> et_links t' 11 = (None, None, Some 12, 1, 0)
    \<and> et_links t' 12 = (Some 11, Some 13, Some 14, 3, 0)
    \<and> et_links t' 13 = (None, None, Some 12, 1, 0)
    \<and> et_links t' 14 = (Some 12, Some 17, None, 7, 0)
    \<and> et_links t' 15 = (None, None, Some 17, 1, 0)
    \<and> et_links t' 17 = (Some 15, Some 19, Some 14, 3, 0)
    \<and> et_links t' 19 = (None, None, Some 17, 1, 0)
    \<and> (\<forall>x. et_key (et_heap t' x) = int x)"
  using assms unfolding et_insert_def
  apply (simp add: et_eval_loops cong: bind_weak_cong let_weak_cong prod.case_cong_weak)
  apply (simp_all add: et_eval_loops et_eval_rebuild cong: bind_weak_cong let_weak_cong prod.case_cong_weak)?
  done

lemma et_stale_dbg_step8:
  assumes "et_root t = Some 14"
    "rebuild_buffer t = [Some 11, Some 13, Some 15, Some 19, Some 12, Some 17, Some 14]"
    "et_links t 11 = (None, None, Some 12, 1, 0)"
    "et_links t 12 = (Some 11, Some 13, Some 14, 3, 0)"
    "et_links t 13 = (None, None, Some 12, 1, 0)"
    "et_links t 14 = (Some 12, Some 17, None, 7, 0)"
    "et_links t 15 = (None, None, Some 17, 1, 0)"
    "et_links t 17 = (Some 15, Some 19, Some 14, 3, 0)"
    "et_links t 19 = (None, None, Some 17, 1, 0)"
    "(\<forall>x. et_key (et_heap t x) = int x)"
  shows "\<exists>t'. et_insert True 18 t = Some t' \<and> et_root t' = Some 14
    \<and> rebuild_buffer t' = [Some 11, Some 13, Some 15, Some 19, Some 12, Some 17, Some 14]
    \<and> et_links t' 11 = (None, None, Some 12, 1, 0)
    \<and> et_links t' 12 = (Some 11, Some 13, Some 14, 3, 0)
    \<and> et_links t' 13 = (None, None, Some 12, 1, 0)
    \<and> et_links t' 14 = (Some 12, Some 17, None, 8, 1)
    \<and> et_links t' 15 = (None, None, Some 17, 1, 0)
    \<and> et_links t' 17 = (Some 15, Some 19, Some 14, 4, 1)
    \<and> et_links t' 18 = (None, None, Some 19, 1, 0)
    \<and> et_links t' 19 = (Some 18, None, Some 17, 2, 1)
    \<and> (\<forall>x. et_key (et_heap t' x) = int x)"
  using assms unfolding et_insert_def
  apply (simp add: et_eval_loops cong: bind_weak_cong let_weak_cong prod.case_cong_weak)
  apply (simp_all add: et_eval_loops et_eval_rebuild cong: bind_weak_cong let_weak_cong prod.case_cong_weak)?
  done

lemma et_stale_dbg_step9:
  assumes "et_root t = Some 14"
    "rebuild_buffer t = [Some 11, Some 13, Some 15, Some 19, Some 12, Some 17, Some 14]"
    "et_links t 11 = (None, None, Some 12, 1, 0)"
    "et_links t 12 = (Some 11, Some 13, Some 14, 3, 0)"
    "et_links t 13 = (None, None, Some 12, 1, 0)"
    "et_links t 14 = (Some 12, Some 17, None, 8, 1)"
    "et_links t 15 = (None, None, Some 17, 1, 0)"
    "et_links t 17 = (Some 15, Some 19, Some 14, 4, 1)"
    "et_links t 18 = (None, None, Some 19, 1, 0)"
    "et_links t 19 = (Some 18, None, Some 17, 2, 1)"
    "(\<forall>x. et_key (et_heap t x) = int x)"
  shows "\<exists>t'. et_insert True 16 t = Some t' \<and> et_root t' = Some 14
    \<and> rebuild_buffer t' = [Some 11, Some 13, Some 15, Some 19, Some 12, Some 17, Some 14]
    \<and> et_links t' 11 = (None, None, Some 12, 1, 0)
    \<and> et_links t' 12 = (Some 11, Some 13, Some 14, 3, 0)
    \<and> et_links t' 13 = (None, None, Some 12, 1, 0)
    \<and> et_links t' 14 = (Some 12, Some 17, None, 9, 2)
    \<and> et_links t' 15 = (None, Some 16, Some 17, 2, 1)
    \<and> et_links t' 16 = (None, None, Some 15, 1, 0)
    \<and> et_links t' 17 = (Some 15, Some 19, Some 14, 5, 2)
    \<and> et_links t' 18 = (None, None, Some 19, 1, 0)
    \<and> et_links t' 19 = (Some 18, None, Some 17, 2, 1)
    \<and> (\<forall>x. et_key (et_heap t' x) = int x)"
  using assms unfolding et_insert_def
  apply (simp add: et_eval_loops cong: bind_weak_cong let_weak_cong prod.case_cong_weak)
  apply (simp_all add: et_eval_loops et_eval_rebuild cong: bind_weak_cong let_weak_cong prod.case_cong_weak)?
  done

lemma et_stale_dbg_step10:
  assumes "et_root t = Some 14"
    "rebuild_buffer t = [Some 11, Some 13, Some 15, Some 19, Some 12, Some 17, Some 14]"
    "et_links t 11 = (None, None, Some 12, 1, 0)"
    "et_links t 12 = (Some 11, Some 13, Some 14, 3, 0)"
    "et_links t 13 = (None, None, Some 12, 1, 0)"
    "et_links t 14 = (Some 12, Some 17, None, 9, 2)"
    "et_links t 15 = (None, Some 16, Some 17, 2, 1)"
    "et_links t 16 = (None, None, Some 15, 1, 0)"
    "et_links t 17 = (Some 15, Some 19, Some 14, 5, 2)"
    "et_links t 18 = (None, None, Some 19, 1, 0)"
    "et_links t 19 = (Some 18, None, Some 17, 2, 1)"
    "(\<forall>x. et_key (et_heap t x) = int x)"
  shows "\<exists>t'. et_remove True 16 t = Some t' \<and> et_root t' = Some 14
    \<and> rebuild_buffer t' = [Some 15, Some 18, Some 15, Some 19, Some 17, Some 17, Some 19]
    \<and> et_links t' 11 = (None, None, Some 12, 1, 0)
    \<and> et_links t' 12 = (Some 11, Some 13, Some 14, 3, 0)
    \<and> et_links t' 13 = (None, None, Some 12, 1, 0)
    \<and> et_links t' 14 = (Some 12, Some 19, None, 8, 3)
    \<and> et_links t' 15 = (None, None, Some 17, 1, 0)
    \<and> et_links t' 16 = (None, None, Some 15, 1, 0)
    \<and> et_links t' 17 = (Some 15, None, Some 19, 2, 0)
    \<and> et_links t' 18 = (None, None, Some 19, 1, 0)
    \<and> et_links t' 19 = (Some 17, Some 17, Some 14, 4, 0)
    \<and> (\<forall>x. et_key (et_heap t' x) = int x)"
  using assms unfolding et_remove_def
  apply (simp add: et_eval_loops cong: bind_weak_cong let_weak_cong prod.case_cong_weak)
  apply (simp_all add: et_eval_loops et_eval_rebuild cong: bind_weak_cong let_weak_cong prod.case_cong_weak)?
  done

lemma et_stale_dbg_run:
  "\<exists>t. et_run True [Insert 11, Insert 12, Insert 13, Insert 14, Insert 15, Insert 17, Insert 19, Insert 18, Insert 16, Remove 16] (etree_new (et_keyed_nodes int)) = Some t
    \<and> et_root t = Some 14
    \<and> rebuild_buffer t = [Some 15, Some 18, Some 15, Some 19, Some 17, Some 17, Some 19]
    \<and> et_links t 11 = (None, None, Some 12, 1, 0)
    \<and> et_links t 12 = (Some 11, Some 13, Some 14, 3, 0)
    \<and> et_links t 13 = (None, None, Some 12, 1, 0)
    \<and> et_links t 14 = (Some 12, Some 19, None, 8, 3)
    \<and> et_links t 15 = (None, None, Some 17, 1, 0)
    \<and> et_links t 16 = (None, None, Some 15, 1, 0)
    \<and> et_links t 17 = (Some 15, None, Some 19, 2, 0)
    \<and> et_links t 18 = (None, None, Some 19, 1, 0)
    \<and> et_links t 19 = (Some 17, Some 17, Some 14, 4, 0)"
proof -
  let ?t0 = "etree_new (et_keyed_nodes int)"
  have s0: "et_root ?t0 = None" "rebuild_buffer ?t0 = []" "\<forall>x. et_key (et_heap ?t0 x) = int x"
    by (simp_all add: etree_new_def et_keyed_nodes_def)
  obtain t1 where s1: "et_insert True 11 ?t0 = Some t1"
    "et_root t1 = Some 11"
    "rebuild_buffer t1 = []"
    "et_links t1 11 = (None, None, None, 1, 0)"
    "(\<forall>x. et_key (et_heap t1 x) = int x)"
    using et_stale_dbg_step1[OF s0] by blast
  obtain t2 where s2: "et_insert True 12 t1 = Some t2"
    "et_root t2 = Some 11"
    "rebuild_buffer t2 = []"
    "et_links t2 11 = (None, Some 12, None, 2, 1)"
    "et_links t2 12 = (None, None, Some 11, 1, 0)"
    "(\<forall>x. et_key (et_heap t2 x) = int x)"
    using et_stale_dbg_step2[OF s1(2-)] by blast
  obtain t3 where s3: "et_insert True 13 t2 = Some t3"
    "et_root t3 = Some 12"
    "rebuild_buffer t3 = [Some 11, Some 13, Some 12]"
    "et_links t3 11 = (None, None, Some 12, 1, 0)"
    "et_links t3 12 = (Some 11, Some 13, None, 3, 0)"
    "et_links t3 13 = (None, None, Some 12, 1, 0)"
    "(\<forall>x. et_key (et_heap t3 x) = int x)"
    using et_stale_dbg_step3[OF s2(2-)] by blast
  obtain t4 where s4: "et_insert True 14 t3 = Some t4"
    "et_root t4 = Some 12"
    "rebuild_buffer t4 = [Some 11, Some 13, Some 12]"
    "et_links t4 11 = (None, None, Some 12, 1, 0)"
    "et_links t4 12 = (Some 11, Some 13, None, 4, 1)"
    "et_links t4 13 = (None, Some 14, Some 12, 2, 1)"
    "et_links t4 14 = (None, None, Some 13, 1, 0)"
    "(\<forall>x. et_key (et_heap t4 x) = int x)"
    using et_stale_dbg_step4[OF s3(2-)] by blast
  obtain t5 where s5: "et_insert True 15 t4 = Some t5"
    "et_root t5 = Some 12"
    "rebuild_buffer t5 = [Some 13, Some 15, Some 14]"
    "et_links t5 11 = (None, None, Some 12, 1, 0)"
    "et_links t5 12 = (Some 11, Some 14, None, 5, 2)"
    "et_links t5 13 = (None, None, Some 14, 1, 0)"
    "et_links t5 14 = (Some 13, Some 15, Some 12, 3, 0)"
    "et_links t5 15 = (None, None, Some 14, 1, 0)"
    "(\<forall>x. et_key (et_heap t5 x) = int x)"
    using et_stale_dbg_step5[OF s4(2-)] by blast
  obtain t6 where s6: "et_insert True 17 t5 = Some t6"
    "et_root t6 = Some 12"
    "rebuild_buffer t6 = [Some 13, Some 15, Some 14]"
    "et_links t6 11 = (None, None, Some 12, 1, 0)"
    "et_links t6 12 = (Some 11, Some 14, None, 6, 3)"
    "et_links t6 13 = (None, None, Some 14, 1, 0)"
    "et_links t6 14 = (Some 13, Some 15, Some 12, 4, 1)"
    "et_links t6 15 = (None, Some 17, Some 14, 2, 1)"
    "et_links t6 17 = (None, None, Some 15, 1, 0)"
    "(\<forall>x. et_key (et_heap t6 x) = int x)"
    using et_stale_dbg_step6[OF s5(2-)] by blast
  obtain t7 where s7: "et_insert True 19 t6 = Some t7"
    "et_root t7 = Some 14"
    "rebuild_buffer t7 = [Some 11, Some 13, Some 15, Some 19, Some 12, Some 17, Some 14]"
    "et_links t7 11 = (None, None, Some 12, 1, 0)"
    "et_links t7 12 = (Some 11, Some 13, Some 14, 3, 0)"
    "et_links t7 13 = (None, None, Some 12, 1, 0)"
    "et_links t7 14 = (Some 12, Some 17, None, 7, 0)"
    "et_links t7 15 = (None, None, Some 17, 1, 0)"
    "et_links t7 17 = (Some 15, Some 19, Some 14, 3, 0)"
    "et_links t7 19 = (None, None, Some 17, 1, 0)"
    "(\<forall>x. et_key (et_heap t7 x) = int x)"
    using et_stale_dbg_step7[OF s6(2-)] by blast
  obtain t8 where s8: "et_insert True 18 t7 = Some t8"
    "et_root t8 = Some 14"
    "rebuild_buffer t8 = [Some 11, Some 13, Some 15, Some 19, Some 12, Some 17, Some 14]"
    "et_links t8 11 = (None, None, Some 12, 1, 0)"
    "et_links t8 12 = (Some 11, Some 13, Some 14, 3, 0)"
    "et_links t8 13 = (None, None, Some 12, 1, 0)"
    "et_links t8 14 = (Some 12, Some 17, None, 8, 1)"
    "et_links t8 15 = (None, None, Some 17, 1, 0)"
    "et_links t8 17 = (Some 15, Some 19, Some 14, 4, 1)"
    "et_links t8 18 = (None, None, Some 19, 1, 0)"
    "et_links t8 19 = (Some 18, None, Some 17, 2, 1)"
    "(\<forall>x. et_key (et_heap t8 x) = int x)"
    using et_stale_dbg_step8[OF s7(2-)] by blast
  obtain t9 where s9: "et_insert True 16 t8 = Some t9"
    "et_root t9 = Some 14"
    "rebuild_buffer t9 = [Some 11, Some 13, Some 15, Some 19, Some 12, Some 17, Some 14]"
    "et_links t9 11 = (None, None, Some 12, 1, 0)"
    "et_links t9 12 = (Some 11, Some 13, Some 14, 3, 0)"
    "et_links t9 13 = (None, None, Some 12, 1, 0)"
    "et_links t9 14 = (Some 12, Some 17, None, 9, 2)"
    "et_links t9 15 = (None, Some 16, Some 17, 2, 1)"
    "et_links t9 16 = (None, None, Some 15, 1, 0)"
    "et_links t9 17 = (Some 15, Some 19, Some 14, 5, 2)"
    "et_links t9 18 = (None, None, Some 19, 1, 0)"
    "et_links t9 19 = (Some 18, None, Some 17, 2, 1)"
    "(\<forall>x. et_key (et_heap t9 x) = int x)"
    using et_stale_dbg_step9[OF s8(2-)] by blast
  obtain t10 where s10: "et_remove True 16 t9 = Some t10"
    "et_root t10 = Some 14"
    "rebuild_buffer t10 = [Some 15, Some 18, Some 15, Some 19, Some 17, Some 17, Some 19]"
    "et_links t10 11 = (None, None, Some 12, 1, 0)"
    "et_links t10 12 = (Some 11, Some 13, Some 14, 3, 0)"
    "et_links t10 13 = (None, None, Some 12, 1, 0)"
    "et_links t10 14 = (Some 12, Some 19, None, 8, 3)"
    "et_links t10 15 = (None, None, Some 17, 1, 0)"
    "et_links t10 16 = (None, None, Some 15, 1, 0)"
    "et_links t10 17 = (Some 15, None, Some 19, 2, 0)"
    "et_links t10 18 = (None, None, Some 19, 1, 0)"
    "et_links t10 19 = (Some 17, Some 17, Some 14, 4, 0)"
    "(\<forall>x. et_key (et_heap t10 x) = int x)"
    using et_stale_dbg_step10[OF s9(2-)] by blast
  show ?thesis
    using s10(2-) by (simp add: s1(1) s2(1) s3(1) s4(1) s5(1) s6(1) s7(1) s8(1) s9(1) s10(1))
qed


lemma et_stale_step1:
  assumes "et_root t = None"
    "rebuild_buffer t = []"
    "(\<forall>x. et_key (et_heap t x) = int x)"
  shows "\<exists>t'. et_insert False 11 t = Some t' \<and> et_root t' = Some 11
    \<and> rebuild_buffer t' = []
    \<and> et_links t' 11 = (None, None, None, 1, 0)
    \<and> (\<forall>x. et_key (et_heap t' x) = int x)"
  using assms unfolding et_insert_def
  apply (simp add: et_eval_loops cong: bind_weak_cong let_weak_cong prod.case_cong_weak)
  apply (simp_all add: et_eval_loops et_eval_rebuild cong: bind_weak_cong let_weak_cong prod.case_cong_weak)?
  done

lemma et_stale_step2:
  assumes "et_root t = Some 11"
    "rebuild_buffer t = []"
    "et_links t 11 = (None, None, None, 1, 0)"
    "(\<forall>x. et_key (et_heap t x) = int x)"
  shows "\<exists>t'. et_insert False 12 t = Some t' \<and> et_root t' = Some 11
    \<and> rebuild_buffer t' = []
    \<and> et_links t' 11 = (None, Some 12, None, 2, 1)
    \<and> et_links t' 12 = (None, None, Some 11, 1, 0)
    \<and> (\<forall>x. et_key (et_heap t' x) = int x)"
  using assms unfolding et_insert_def
  apply (simp add: et_eval_loops cong: bind_weak_cong let_weak_cong prod.case_cong_weak)
  apply (simp_all add: et_eval_loops et_eval_rebuild cong: bind_weak_cong let_weak_cong prod.case_cong_weak)?
  done

lemma et_stale_step3:
  assumes "et_root t = Some 11"
    "rebuild_buffer t = []"
    "et_links t 11 = (None, Some 12, None, 2, 1)"
    "et_links t 12 = (None, None, Some 11, 1, 0)"
    "(\<forall>x. et_key (et_heap t x) = int x)"
  shows "\<exists>t'. et_insert False 13 t = Some t' \<and> et_root t' = Some 12
    \<and> rebuild_buffer t' = [Some 11, Some 13, Some 12]
    \<and> et_links t' 11 = (None, None, Some 12, 1, 0)
    \<and> et_links t' 12 = (Some 11, Some 13, None, 3, 0)
    \<and> et_links t' 13 = (None, None, Some 12, 1, 0)
    \<and> (\<forall>x. et_key (et_heap t' x) = int x)"
  using assms unfolding et_insert_def
  apply (simp add: et_eval_loops cong: bind_weak_cong let_weak_cong prod.case_cong_weak)
  apply (simp_all add: et_eval_loops et_eval_rebuild cong: bind_weak_cong let_weak_cong prod.case_cong_weak)?
  done

lemma et_stale_step4:
  assumes "et_root t = Some 12"
    "rebuild_buffer t = [Some 11, Some 13, Some 12]"
    "et_links t 11 = (None, None, Some 12, 1, 0)"
    "et_links t 12 = (Some 11, Some 13, None, 3, 0)"
    "et_links t 13 = (None, None, Some 12, 1, 0)"
    "(\<forall>x. et_key (et_heap t x) = int x)"
  shows "\<exists>t'. et_insert False 14 t = Some t' \<and> et_root t' = Some 12
    \<and> rebuild_buffer t' = [Some 11, Some 13, Some 12]
    \<and> et_links t' 11 = (None, None, Some 12, 1, 0)
    \<and> et_links t' 12 = (Some 11, Some 13, None, 4, 1)
    \<and> et_links t' 13 = (None, Some 14, Some 12, 2, 1)
    \<and> et_links t' 14 = (None, None, Some 13, 1, 0)
    \<and> (\<forall>x. et_key (et_heap t' x) = int x)"
  using assms unfolding et_insert_def
  apply (simp add: et_eval_loops cong: bind_weak_cong let_weak_cong prod.case_cong_weak)
  apply (simp_all add: et_eval_loops et_eval_rebuild cong: bind_weak_cong let_weak_cong prod.case_cong_weak)?
  done

lemma et_stale_step5:
  assumes "et_root t = Some 12"
    "rebuild_buffer t = [Some 11, Some 13, Some 12]"
    "et_links t 11 = (None, None, Some 12, 1, 0)"
    "et_links t 12 = (Some 11, Some 13, None, 4, 1)"
    "et_links t 13 = (None, Some 14, Some 12, 2, 1)"
    "et_links t 14 = (None, None, Some 13, 1, 0)"
    "(\<forall>x. et_key (et_heap t x) = int x)"
  shows "\<exists>t'. et_insert False 15 t = Some t' \<and> et_root t' = Some 12
    \<and> rebuild_buffer t' = [Some 13, Some 15, Some 14]
    \<and> et_links t' 11 = (None, None, Some 12, 1, 0)
    \<and> et_links t' 12 = (Some 11, Some 14, None, 5, 2)
    \<and> et_links t' 13 = (None, None, Some 14, 1, 0)
    \<and> et_links t' 14 = (Some 13, Some 15, Some 12, 3, 0)
    \<and> et_links t' 15 = (None, None, Some 14, 1, 0)
    \<and> (\<forall>x. et_key (et_heap t' x) = int x)"
  using assms unfolding et_insert_def
  apply (simp add: et_eval_loops cong: bind_weak_cong let_weak_cong prod.case_cong_weak)
  apply (simp_all add: et_eval_loops et_eval_rebuild cong: bind_weak_cong let_weak_cong prod.case_cong_weak)?
  done

lemma et_stale_step6:
  assumes "et_root t = Some 12"
    "rebuild_buffer t = [Some 13, Some 15, Some 14]"
    "et_links t 11 = (None, None, Some 12, 1, 0)"
    "et_links t 12 = (Some 11, Some 14, None, 5, 2)"
    "et_links t 13 = (None, None, Some 14, 1, 0)"
    "et_links t 14 = (Some 13, Some 15, Some 12, 3, 0)"
    "et_links t 15 = (None, None, Some 14, 1, 0)"
    "(\<forall>x. et_key (et_heap t x) = int x)"
  shows "\<exists>t'. et_insert False 17 t = Some t' \<and> et_root t' = Some 12
    \<and> rebuild_buffer t' = [Some 13, Some 15, Some 14]
    \<and> et_links t' 11 = (None, None, Some 12, 1, 0)
    \<and> et_links t' 12 = (Some 11, Some 14, None, 6, 3)
    \<and> et_links t' 13 = (None, None, Some 14, 1, 0)
    \<and> et_links t' 14 = (Some 13, Some 15, Some 12, 4, 1)
    \<and> et_links t' 15 = (None, Some 17, Some 14, 2, 1)
    \<and> et_links t' 17 = (None, None, Some 15, 1, 0)
    \<and> (\<forall>x. et_key (et_heap t' x) = int x)"
  using assms unfolding et_insert_def
  apply (simp add: et_eval_loops cong: bind_weak_cong let_weak_cong prod.case_cong_weak)
  apply (simp_all add: et_eval_loops et_eval_rebuild cong: bind_weak_cong let_weak_cong prod.case_cong_weak)?
  done

lemma et_stale_step7:
  assumes "et_root t = Some 12"
    "rebuild_buffer t = [Some 13, Some 15, Some 14]"
    "et_links t 11 = (None, None, Some 12, 1, 0)"
    "et_links t 12 = (Some 11, Some 14, None, 6, 3)"
    "et_links t 13 = (None, None, Some 14, 1, 0)"
    "et_links t 14 = (Some 13, Some 15, Some 12, 4, 1)"
    "et_links t 15 = (None, Some 17, Some 14, 2, 1)"
    "et_links t 17 = (None, None, Some 15, 1, 0)"
    "(\<forall>x. et_key (et_heap t x) = int x)"
  shows "\<exists>t'. et_insert False 19 t = Some t' \<and> et_root t' = Some 14
    \<and> rebuild_buffer t' = [Some 11, Some 13, Some 15, Some 19, Some 12, Some 17, Some 14]
    \<and> et_links t' 11 = (None, None, Some 12, 1, 0)
    \<and> et_links t' 12 = (Some 11, Some 13, Some 14, 3, 0)
    \<and> et_links t' 13 = (None, None, Some 12, 1, 0)
    \<and> et_links t' 14 = (Some 12, Some 17, None, 7, 0)
    \<and> et_links t' 15 = (None, None, Some 17, 1, 0)
    \<and> et_links t' 17 = (Some 15, Some 19, Some 14, 3, 0)
    \<and> et_links t' 19 = (None, None, Some 17, 1, 0)
    \<and> (\<forall>x. et_key (et_heap t' x) = int x)"
  using assms unfolding et_insert_def
  apply (simp add: et_eval_loops cong: bind_weak_cong let_weak_cong prod.case_cong_weak)
  apply (simp_all add: et_eval_loops et_eval_rebuild cong: bind_weak_cong let_weak_cong prod.case_cong_weak)?
  done

lemma et_stale_step8:
  assumes "et_root t = Some 14"
    "rebuild_buffer t = [Some 11, Some 13, Some 15, Some 19, Some 12, Some 17, Some 14]"
    "et_links t 11 = (None, None, Some 12, 1, 0)"
    "et_links t 12 = (Some 11, Some 13, Some 14, 3, 0)"
    "et_links t 13 = (None, None, Some 12, 1, 0)"
    "et_links t 14 = (Some 12, Some 17, None, 7, 0)"
    "et_links t 15 = (None, None, Some 17, 1, 0)"
    "et_links t 17 = (Some 15, Some 19, Some 14, 3, 0)"
    "et_links t 19 = (None, None, Some 17, 1, 0)"
    "(\<forall>x. et_key (et_heap t x) = int x)"
  shows "\<exists>t'. et_insert False 18 t = Some t' \<and> et_root t' = Some 14
    \<and> rebuild_buffer t' = [Some 11, Some 13, Some 15, Some 19, Some 12, Some 17, Some 14]
    \<and> et_links t' 11 = (None, None, Some 12, 1, 0)
    \<and> et_links t' 12 = (Some 11, Some 13, Some 14, 3, 0)
    \<and> et_links t' 13 = (None, None, Some 12, 1, 0)
    \<and> et_links t' 14 = (Some 12, Some 17, None, 8, 1)
    \<and> et_links t' 15 = (None, None, Some 17, 1, 0)
    \<and> et_links t' 17 = (Some 15, Some 19, Some 14, 4, 1)
    \<and> et_links t' 18 = (None, None, Some 19, 1, 0)
    \<and> et_links t' 19 = (Some 18, None, Some 17, 2, 1)
    \<and> (\<forall>x. et_key (et_heap t' x) = int x)"
  using assms unfolding et_insert_def
  apply (simp add: et_eval_loops cong: bind_weak_cong let_weak_cong prod.case_cong_weak)
  apply (simp_all add: et_eval_loops et_eval_rebuild cong: bind_weak_cong let_weak_cong prod.case_cong_weak)?
  done

lemma et_stale_step9:
  assumes "et_root t = Some 14"
    "rebuild_buffer t = [Some 11, Some 13, Some 15, Some 19, Some 12, Some 17, Some 14]"
    "et_links t 11 = (None, None, Some 12, 1, 0)"
    "et_links t 12 = (Some 11, Some 13, Some 14, 3, 0)"
    "et_links t 13 = (None, None, Some 12, 1, 0)"
    "et_links t 14 = (Some 12, Some 17, None, 8, 1)"
    "et_links t 15 = (None, None, Some 17, 1, 0)"
    "et_links t 17 = (Some 15, Some 19, Some 14, 4, 1)"
    "et_links t 18 = (None, None, Some 19, 1, 0)"
    "et_links t 19 = (Some 18, None, Some 17, 2, 1)"
    "(\<forall>x. et_key (et_heap t x) = int x)"
  shows "\<exists>t'. et_insert False 16 t = Some t' \<and> et_root t' = Some 14
    \<and> rebuild_buffer t' = [Some 11, Some 13, Some 15, Some 19, Some 12, Some 17, Some 14]
    \<and> et_links t' 11 = (None, None, Some 12, 1, 0)
    \<and> et_links t' 12 = (Some 11, Some 13, Some 14, 3, 0)
    \<and> et_links t' 13 = (None, None, Some 12, 1, 0)
    \<and> et_links t' 14 = (Some 12, Some 17, None, 9, 2)
    \<and> et_links t' 15 = (None, Some 16, Some 17, 2, 1)
    \<and> et_links t' 16 = (None, None, Some 15, 1, 0)
    \<and> et_links t' 17 = (Some 15, Some 19, Some 14, 5, 2)
    \<and> et_links t' 18 = (None, None, Some 19, 1, 0)
    \<and> et_links t' 19 = (Some 18, None, Some 17, 2, 1)
    \<and> (\<forall>x. et_key (et_heap t' x) = int x)"
  using assms unfolding et_insert_def
  apply (simp add: et_eval_loops cong: bind_weak_cong let_weak_cong prod.case_cong_weak)
  apply (simp_all add: et_eval_loops et_eval_rebuild cong: bind_weak_cong let_weak_cong prod.case_cong_weak)?
  done

lemma et_stale_step10:
  assumes "et_root t = Some 14"
    "rebuild_buffer t = [Some 11, Some 13, Some 15, Some 19, Some 12, Some 17, Some 14]"
    "et_links t 11 = (None, None, Some 12, 1, 0)"
    "et_links t 12 = (Some 11, Some 13, Some 14, 3, 0)"
    "et_links t 13 = (None, None, Some 12, 1, 0)"
    "et_links t 14 = (Some 12, Some 17, None, 9, 2)"
    "et_links t 15 = (None, Some 16, Some 17, 2, 1)"
    "et_links t 16 = (None, None, Some 15, 1, 0)"
    "et_links t 17 = (Some 15, Some 19, Some 14, 5, 2)"
    "et_links t 18 = (None, None, Some 19, 1, 0)"
    "et_links t 19 = (Some 18, None, Some 17, 2, 1)"
    "(\<forall>x. et_key (et_heap t x) = int x)"
  shows "\<exists>t'. et_remove False 16 t = Some t' \<and> et_root t' = Some 14
    \<and> rebuild_buffer t' = [Some 15, Some 18, Some 15, Some 19, Some 17, Some 17, Some 19]
    \<and> et_links t' 11 = (None, None, Some 12, 1, 0)
    \<and> et_links t' 12 = (Some 11, Some 13, Some 14, 3, 0)
    \<and> et_links t' 13 = (None, None, Some 12, 1, 0)
    \<and> et_links t' 14 = (Some 12, Some 19, None, 8, 3)
    \<and> et_links t' 15 = (None, None, Some 17, 1, 0)
    \<and> et_links t' 16 = (None, None, Some 15, 1, 0)
    \<and> et_links t' 17 = (Some 15, None, Some 19, 2, 0)
    \<and> et_links t' 18 = (None, None, Some 19, 1, 0)
    \<and> et_links t' 19 = (Some 17, Some 17, Some 14, 4, 0)
    \<and> (\<forall>x. et_key (et_heap t' x) = int x)"
  using assms unfolding et_remove_def
  apply (simp add: et_eval_loops cong: bind_weak_cong let_weak_cong prod.case_cong_weak)
  apply (simp_all add: et_eval_loops et_eval_rebuild cong: bind_weak_cong let_weak_cong prod.case_cong_weak)?
  done

lemma et_stale_run:
  "\<exists>t. et_run False [Insert 11, Insert 12, Insert 13, Insert 14, Insert 15, Insert 17, Insert 19, Insert 18, Insert 16, Remove 16] (etree_new (et_keyed_nodes int)) = Some t
    \<and> et_root t = Some 14
    \<and> rebuild_buffer t = [Some 15, Some 18, Some 15, Some 19, Some 17, Some 17, Some 19]
    \<and> et_links t 11 = (None, None, Some 12, 1, 0)
    \<and> et_links t 12 = (Some 11, Some 13, Some 14, 3, 0)
    \<and> et_links t 13 = (None, None, Some 12, 1, 0)
    \<and> et_links t 14 = (Some 12, Some 19, None, 8, 3)
    \<and> et_links t 15 = (None, None, Some 17, 1, 0)
    \<and> et_links t 16 = (None, None, Some 15, 1, 0)
    \<and> et_links t 17 = (Some 15, None, Some 19, 2, 0)
    \<and> et_links t 18 = (None, None, Some 19, 1, 0)
    \<and> et_links t 19 = (Some 17, Some 17, Some 14, 4, 0)"
proof -
  let ?t0 = "etree_new (et_keyed_nodes int)"
  have s0: "et_root ?t0 = None" "rebuild_buffer ?t0 = []" "\<forall>x. et_key (et_heap ?t0 x) = int x"
    by (simp_all add: etree_new_def et_keyed_nodes_def)
  obtain t1 where s1: "et_insert False 11 ?t0 = Some t1"
    "et_root t1 = Some 11"
    "rebuild_buffer t1 = []"
    "et_links t1 11 = (None, None, None, 1, 0)"
    "(\<forall>x. et_key (et_heap t1 x) = int x)"
    using et_stale_step1[OF s0] by blast
  obtain t2 where s2: "et_insert False 12 t1 = Some t2"
    "et_root t2 = Some 11"
    "rebuild_buffer t2 = []"
    "et_links t2 11 = (None, Some 12, None, 2, 1)"
    "et_links t2 12 = (None, None, Some 11, 1, 0)"
    "(\<forall>x. et_key (et_heap t2 x) = int x)"
    using et_stale_step2[OF s1(2-)] by blast
  obtain t3 where s3: "et_insert False 13 t2 = Some t3"
    "et_root t3 = Some 12"
    "rebuild_buffer t3 = [Some 11, Some 13, Some 12]"
    "et_links t3 11 = (None, None, Some 12, 1, 0)"
    "et_links t3 12 = (Some 11, Some 13, None, 3, 0)"
    "et_links t3 13 = (None, None, Some 12, 1, 0)"
    "(\<forall>x. et_key (et_heap t3 x) = int x)"
    using et_stale_step3[OF s2(2-)] by blast
  obtain t4 where s4: "et_insert False 14 t3 = Some t4"
    "et_root t4 = Some 12"
    "rebuild_buffer t4 = [Some 11, Some 13, Some 12]"
    "et_links t4 11 = (None, None, Some 12, 1, 0)"
    "et_links t4 12 = (Some 11, Some 13, None, 4, 1)"
    "et_links t4 13 = (None, Some 14, Some 12, 2, 1)"
    "et_links t4 14 = (None, None, Some 13, 1, 0)"
    "(\<forall>x. et_key (et_heap t4 x) = int x)"
    using et_stale_step4[OF s3(2-)] by blast
  obtain t5 where s5: "et_insert False 15 t4 = Some t5"
    "et_root t5 = Some 12"
    "rebuild_buffer t5 = [Some 13, Some 15, Some 14]"
    "et_links t5 11 = (None, None, Some 12, 1, 0)"
    "et_links t5 12 = (Some 11, Some 14, None, 5, 2)"
    "et_links t5 13 = (None, None, Some 14, 1, 0)"
    "et_links t5 14 = (Some 13, Some 15, Some 12, 3, 0)"
    "et_links t5 15 = (None, None, Some 14, 1, 0)"
    "(\<forall>x. et_key (et_heap t5 x) = int x)"
    using et_stale_step5[OF s4(2-)] by blast
  obtain t6 where s6: "et_insert False 17 t5 = Some t6"
    "et_root t6 = Some 12"
    "rebuild_buffer t6 = [Some 13, Some 15, Some 14]"
    "et_links t6 11 = (None, None, Some 12, 1, 0)"
    "et_links t6 12 = (Some 11, Some 14, None, 6, 3)"
    "et_links t6 13 = (None, None, Some 14, 1, 0)"
    "et_links t6 14 = (Some 13, Some 15, Some 12, 4, 1)"
    "et_links t6 15 = (None, Some 17, Some 14, 2, 1)"
    "et_links t6 17 = (None, None, Some 15, 1, 0)"
    "(\<forall>x. et_key (et_heap t6 x) = int x)"
    using et_stale_step6[OF s5(2-)] by blast
  obtain t7 where s7: "et_insert False 19 t6 = Some t7"
    "et_root t7 = Some 14"
    "rebuild_buffer t7 = [Some 11, Some 13, Some 15, Some 19, Some 12, Some 17, Some 14]"
    "et_links t7 11 = (None, None, Some 12, 1, 0)"
    "et_links t7 12 = (Some 11, Some 13, Some 14, 3, 0)"
    "et_links t7 13 = (None, None, Some 12, 1, 0)"
    "et_links t7 14 = (Some 12, Some 17, None, 7, 0)"
    "et_links t7 15 = (None, None, Some 17, 1, 0)"
    "et_links t7 17 = (Some 15, Some 19, Some 14, 3, 0)"
    "et_links t7 19 = (None, None, Some 17, 1, 0)"
    "(\<forall>x. et_key (et_heap t7 x) = int x)"
    using et_stale_step7[OF s6(2-)] by blast
  obtain t8 where s8: "et_insert False 18 t7 = Some t8"
    "et_root t8 = Some 14"
    "rebuild_buffer t8 = [Some 11, Some 13, Some 15, Some 19, Some 12, Some 17, Some 14]"
    "et_links t8 11 = (None, None, Some 12, 1, 0)"
    "et_links t8 12 = (Some 11, Some 13, Some 14, 3, 0)"
    "et_links t8 13 = (None, None, Some 12, 1, 0)"
    "et_links t8 14 = (Some 12, Some 17, None, 8, 1)"
    "et_links t8 15 = (None, None, Some 17, 1, 0)"
    "et_links t8 17 = (Some 15, Some 19, Some 14, 4, 1)"
    "et_links t8 18 = (None, None, Some 19, 1, 0)"
    "et_links t8 19 = (Some 18, None, Some 17, 2, 1)"
    "(\<forall>x. et_key (et_heap t8 x) = int x)"
    using et_stale_step8[OF s7(2-)] by blast
  obtain t9 where s9: "et_insert False 16 t8 = Some t9"
    "et_root t9 = Some 14"
    "rebuild_buffer t9 = [Some 11, Some 13, Some 15, Some 19, Some 12, Some 17, Some 14]"
    "et_links t9 11 = (None, None, Some 12, 1, 0)"
    "et_links t9 12 = (Some 11, Some 13, Some 14, 3, 0)"
    "et_links t9 13 = (None, None, Some 12, 1, 0)"
    "et_links t9 14 = (Some 12, Some 17, None, 9, 2)"
    "et_links t9 15 = (None, Some 16, Some 17, 2, 1)"
    "et_links t9 16 = (None, None, Some 15, 1, 0)"
    "et_links t9 17 = (Some 15, Some 19, Some 14, 5, 2)"
    "et_links t9 18 = (None, None, Some 19, 1, 0)"
    "et_links t9 19 = (Some 18, None, Some 17, 2, 1)"
    "(\<forall>x. et_key (et_heap t9 x) = int x)"
    using et_stale_step9[OF s8(2-)] by blast
  obtain t10 where s10: "et_remove False 16 t9 = Some t10"
    "et_root t10 = Some 14"
    "rebuild_buffer t10 = [Some 15, Some 18, Some 15, Some 19, Some 17, Some 17, Some 19]"
    "et_links t10 11 = (None, None, Some 12, 1, 0)"
    "et_links t10 12 = (Some 11, Some 13, Some 14, 3, 0)"
    "et_links t10 13 = (None, None, Some 12, 1, 0)"
    "et_links t10 14 = (Some 12, Some 19, None, 8, 3)"
    "et_links t10 15 = (None, None, Some 17, 1, 0)"
    "et_links t10 16 = (None, None, Some 15, 1, 0)"
    "et_links t10 17 = (Some 15, None, Some 19, 2, 0)"
    "et_links t10 18 = (None, None, Some 19, 1, 0)"
    "et_links t10 19 = (Some 17, Some 17, Some 14, 4, 0)"
    "(\<forall>x. et_key (et_heap t10 x) = int x)"
    using et_stale_step10[OF s9(2-)] by blast
  show ?thesis
    using s10(2-) by (simp add: s1(1) s2(1) s3(1) s4(1) s5(1) s6(1) s7(1) s8(1) s9(1) s10(1))
qed


text \<open>
  C3: after \<open>rebuild_below(r)\<close> has completed, the subtree is a complete binary tree of
  the \<open>size(r)\<close> nodes of the old subtree in in-order layout, with correct size fields.
  The placement loop puts the node at in-order position \<open>k\<close> where the \<open>k\<close>-th node
  of the full tree of \<open>2^L - 1\<close> nodes belongs, but the linking loops assume that only the
  bottom level is partial. Both agree only when the subtree has \<open>2^L - 1\<close> or \<open>2^L - 2\<close>
  nodes. For four nodes (\<open>L = 3\<close>) slot 5 of the buffer is never written and slot 1 is
  never linked. With a fresh buffer the rebuild dereferences the null pointer of slot 5
  and does not complete (first two conjuncts). With the pointer an earlier rebuild left
  in slot 5 the rebuild completes, with or without the checks: \<open>remove(16)\<close> returns,
  the new subtree root 19 has node 17 as its left and as its right child and a size
  field of 4, node 18 of the old subtree is linked from nowhere, and the iteration of
  the tree ends after node 17 without visiting 18 and 19.
\<close>

theorem rebuild_of_four_nodes:
  "et_run True [Insert 12, Insert 11, Insert 13, Insert 14, Insert 10, Remove 10]
      (etree_new (et_keyed_nodes int)) = None
   \<and> et_run False [Insert 12, Insert 11, Insert 13, Insert 14, Insert 10, Remove 10]
      (etree_new (et_keyed_nodes int)) = None
   \<and> (\<forall>debug. \<exists>t. et_run debug [Insert 11, Insert 12, Insert 13, Insert 14, Insert 15,
               Insert 17, Insert 19, Insert 18, Insert 16, Remove 16]
               (etree_new (et_keyed_nodes int)) = Some t
          \<and> et_root t = Some 14
          \<and> et_links t 14 = (Some 12, Some 19, None, 8, 3)
          \<and> et_links t 19 = (Some 17, Some 17, Some 14, 4, 0)
          \<and> et_links t 17 = (Some 15, None, Some 19, 2, 0)
          \<and> et_links t 15 = (None, None, Some 17, 1, 0)
          \<and> et_links t 18 = (None, None, Some 19, 1, 0)
          \<and> et_iterate t = Some [11, 12, 13, 14, 15, 17])"
proof -
  have walk: "et_iterate t = Some [11, 12, 13, 14, 15, 17]"
    if "et_root t = Some 14"
      "et_links t 11 = (None, None, Some 12, 1, 0)"
      "et_links t 12 = (Some 11, Some 13, Some 14, 3, 0)"
      "et_links t 13 = (None, None, Some 12, 1, 0)"
      "et_links t 14 = (Some 12, Some 19, None, 8, 3)"
      "et_links t 15 = (None, None, Some 17, 1, 0)"
      "et_links t 17 = (Some 15, None, Some 19, 2, 0)"
      "et_links t 19 = (Some 17, Some 17, Some 14, 4, 0)"
    for t :: "int etree"
    using that
    by (simp add: et_iterate_def et_iterate_from.simps et_get_smallest_def
        et_descend_left.simps et_skip_visited.simps et_step_forward_def et_links_def)
  have "\<exists>t. et_run debug [Insert 11, Insert 12, Insert 13, Insert 14, Insert 15,
               Insert 17, Insert 19, Insert 18, Insert 16, Remove 16]
               (etree_new (et_keyed_nodes int)) = Some t
          \<and> et_root t = Some 14
          \<and> et_links t 14 = (Some 12, Some 19, None, 8, 3)
          \<and> et_links t 19 = (Some 17, Some 17, Some 14, 4, 0)
          \<and> et_links t 17 = (Some 15, None, Some 19, 2, 0)
          \<and> et_links t 15 = (None, None, Some 17, 1, 0)
          \<and> et_links t 18 = (None, None, Some 19, 1, 0)
          \<and> et_iterate t = Some [11, 12, 13, 14, 15, 17]" for debug
  proof (cases debug)
    case True
    from et_stale_dbg_run obtain t where t:
      "et_run True [Insert 11, Insert 12, Insert 13, Insert 14, Insert 15,
               Insert 17, Insert 19, Insert 18, Insert 16, Remove 16]
               (etree_new (et_keyed_nodes int)) = Some t"
      "et_root t = Some 14"
      "et_links t 11 = (None, None, Some 12, 1, 0)"
      "et_links t 12 = (Some 11, Some 13, Some 14, 3, 0)"
      "et_links t 13 = (None, None, Some 12, 1, 0)"
      "et_links t 14 = (Some 12, Some 19, None, 8, 3)"
      "et_links t 15 = (None, None, Some 17, 1, 0)"
      "et_links t 17 = (Some 15, None, Some 19, 2, 0)"
      "et_links t 18 = (None, None, Some 19, 1, 0)"
      "et_links t 19 = (Some 17, Some 17, Some 14, 4, 0)"
      by blast
    have "et_iterate t = Some [11, 12, 13, 14, 15, 17]"
      using t(2-8,10) by (rule walk)
    with t show ?thesis unfolding eqTrueI[OF True] by blast
  next
    case False
    from et_stale_run obtain t where t:
      "et_run False [Insert 11, Insert 12, Insert 13, Insert 14, Insert 15,
               Insert 17, Insert 19, Insert 18, Insert 16, Remove 16]
               (etree_new (et_keyed_nodes int)) = Some t"
      "et_root t = Some 14"
      "et_links t 11 = (None, None, Some 12, 1, 0)"
      "et_links t 12 = (Some 11, Some 13, Some 14, 3, 0)"
      "et_links t 13 = (None, None, Some 12, 1, 0)"
      "et_links t 14 = (Some 12, Some 19, None, 8, 3)"
      "et_links t 15 = (None, None, Some 17, 1, 0)"
      "et_links t 17 = (Some 15, None, Some 19, 2, 0)"
      "et_links t 18 = (None, None, Some 19, 1, 0)"
      "et_links t 19 = (Some 17, Some 17, Some 14, 4, 0)"
      by blast
    have "et_iterate t = Some [11, 12, 13, 14, 15, 17]"
      using t(2-8,10) by (rule walk)
    with t show ?thesis unfolding eq_False[THEN iffD2, OF False] by blast
  qed
  with et_rebuild4_dbg_run et_rebuild4_run show ?thesis by blast
qed


text \<open>
  C9, for the Energy tree: inserting the keys 12, 11, 13, 14, 10 and then removing
  10, 11, 12, 13, 14 does not leave an empty tree: the first removal already fails in the
  rebuild of the four remaining nodes (see \<open>rebuild_of_four_nodes\<close>), with or without
  the checks compiled in.
\<close>

theorem et_round_trip_fails:
  "et_run True ([Insert 12, Insert 11, Insert 13, Insert 14, Insert 10, Remove 10]
       @ [Remove 11, Remove 12, Remove 13, Remove 14]) (etree_new (et_keyed_nodes int)) = None
   \<and> et_run False ([Insert 12, Insert 11, Insert 13, Insert 14, Insert 10, Remove 10]
       @ [Remove 11, Remove 12, Remove 13, Remove 14]) (etree_new (et_keyed_nodes int)) = None"
  unfolding et_run_append
  by (simp only: et_rebuild4_dbg_run et_rebuild4_run Option.bind.bind_lzero simp_thms)

end
